theory Spec2Isabelle
  imports Main "HOL-Library.Sublist"
begin

section \<open>tfdown: a shallow embedding of config.go, downloader.go and main.go\<close>

text \<open>
  Go strings are byte sequences; they are modelled as \<open>string\<close> (a list of 8-bit
  characters). Functions of the Go standard library that the program calls are modelled by
  their documented behaviour on Unix (\<open>os.PathSeparator = '/'\<close>); functions of the program
  keep their Go names.
\<close>

subsection \<open>Package strings and strconv\<close>

definition HasPrefix :: "string \<Rightarrow> string \<Rightarrow> bool" where
  "HasPrefix s p = (take (length p) s = p)"

definition TrimPrefix :: "string \<Rightarrow> string \<Rightarrow> string" where
  "TrimPrefix s p = (if HasPrefix s p then drop (length p) s else s)"

fun Contains :: "string \<Rightarrow> string \<Rightarrow> bool" where
  "Contains [] sub = (sub = [])"
| "Contains (c # cs) sub = (HasPrefix (c # cs) sub \<or> Contains cs sub)"

text \<open>
  \<open>strings.TrimSpace\<close> removes leading and trailing Unicode white space. The white-space
  runes below U+0080 are the six bytes of \<open>asciiSpace\<close>; the others are listed by their
  UTF-8 encodings (U+0085, U+00A0, U+1680, U+2000 to U+200A, U+2028, U+2029, U+202F, U+205F,
  U+3000). A byte sequence that is not the encoding of one of them decodes to a rune that is
  not white space (an invalid byte decodes to U+FFFD), so trimming stops there.
\<close>

definition asciiSpace :: "char \<Rightarrow> bool" where
  "asciiSpace c = (c = CHR 0x09 \<or> c = CHR 0x0A \<or> c = CHR 0x0B \<or> c = CHR 0x0C
                   \<or> c = CHR 0x0D \<or> c = CHR 0x20)"

definition unicodeSpaces :: "string list" where
  "unicodeSpaces =
    [[CHR 0xC2, CHR 0x85], [CHR 0xC2, CHR 0xA0], [CHR 0xE1, CHR 0x9A, CHR 0x80],
     [CHR 0xE2, CHR 0x80, CHR 0x80], [CHR 0xE2, CHR 0x80, CHR 0x81],
     [CHR 0xE2, CHR 0x80, CHR 0x82], [CHR 0xE2, CHR 0x80, CHR 0x83],
     [CHR 0xE2, CHR 0x80, CHR 0x84], [CHR 0xE2, CHR 0x80, CHR 0x85],
     [CHR 0xE2, CHR 0x80, CHR 0x86], [CHR 0xE2, CHR 0x80, CHR 0x87],
     [CHR 0xE2, CHR 0x80, CHR 0x88], [CHR 0xE2, CHR 0x80, CHR 0x89],
     [CHR 0xE2, CHR 0x80, CHR 0x8A], [CHR 0xE2, CHR 0x80, CHR 0xA8],
     [CHR 0xE2, CHR 0x80, CHR 0xA9], [CHR 0xE2, CHR 0x80, CHR 0xAF],
     [CHR 0xE2, CHR 0x81, CHR 0x9F], [CHR 0xE3, CHR 0x80, CHR 0x80]]"

text \<open>The width in bytes of the white-space rune at the start (at the end) of a string,
  0 when there is none.\<close>

definition leadWidth :: "string \<Rightarrow> nat" where
  "leadWidth s =
    (case s of [] \<Rightarrow> 0
     | c # _ \<Rightarrow>
        if asciiSpace c then 1
        else (case List.find (\<lambda>r. prefix r s) unicodeSpaces of
                Some r \<Rightarrow> length r | None \<Rightarrow> 0))"

definition trailWidth :: "string \<Rightarrow> nat" where
  "trailWidth s =
    (if s = [] then 0
     else if asciiSpace (last s) then 1
     else (case List.find (\<lambda>r. suffix r s) unicodeSpaces of
             Some r \<Rightarrow> length r | None \<Rightarrow> 0))"

function trimLeft :: "string \<Rightarrow> string" where
  "trimLeft s = (if leadWidth s = 0 then s else trimLeft (drop (leadWidth s) s))"
  by pat_completeness auto
termination
  by (relation "measure length") (auto simp: leadWidth_def split: list.splits)

function trimRight :: "string \<Rightarrow> string" where
  "trimRight s = (if trailWidth s = 0 then s else trimRight (take (length s - trailWidth s) s))"
  by pat_completeness auto
termination
  by (relation "measure length") (auto simp: trailWidth_def split: if_splits)

declare trimLeft.simps [simp del]
declare trimRight.simps [simp del]

definition TrimSpace :: "string \<Rightarrow> string" where
  "TrimSpace s = trimRight (trimLeft s)"

text \<open>\<open>strings.SplitN(line, "=", 2)\<close>: \<open>None\<close> stands for the one-element result (no
  separator in the line), \<open>Some (a, b)\<close> for the two parts around the first separator.\<close>

fun SplitN2 :: "string \<Rightarrow> (string \<times> string) option" where
  "SplitN2 [] = None"
| "SplitN2 (c # cs) =
    (if c = CHR ''='' then Some ([], cs)
     else (case SplitN2 cs of None \<Rightarrow> None | Some (a, b) \<Rightarrow> Some (c # a, b)))"

text \<open>\<open>strconv.ParseBool\<close>: \<open>None\<close> is the syntax error.\<close>

definition ParseBool :: "string \<Rightarrow> bool option" where
  "ParseBool s =
    (if s \<in> set [''1'', ''t'', ''T'', ''TRUE'', ''true'', ''True''] then Some True
     else if s \<in> set [''0'', ''f'', ''F'', ''FALSE'', ''false'', ''False''] then Some False
     else None)"

text \<open>The verb \<open>%t\<close> of \<open>fmt.Sprintf\<close>.\<close>

definition fmtBool :: "bool \<Rightarrow> string" where
  "fmtBool b = (if b then ''true'' else ''false'')"

subsection \<open>Package path/filepath\<close>

fun splitOn :: "char \<Rightarrow> string \<Rightarrow> string list" where
  "splitOn sep [] = [[]]"
| "splitOn sep (c # cs) =
    (if c = sep then [] # splitOn sep cs
     else (case splitOn sep cs of [] \<Rightarrow> [[c]] | x # xs \<Rightarrow> (c # x) # xs))"

fun joinWith :: "string \<Rightarrow> string list \<Rightarrow> string" where
  "joinWith sep [] = []"
| "joinWith sep [x] = x"
| "joinWith sep (x # y # ys) = x @ sep @ joinWith sep (y # ys)"

text \<open>
  \<open>filepath.Clean\<close> works element by element: an empty element and \<open>.\<close> are dropped;
  \<open>..\<close> removes the element before it when there is one that is not itself \<open>..\<close>, is
  dropped at the root of a rooted path, and is kept otherwise. \<open>cleanStep\<close> is one step of
  that loop on the elements written so far.
\<close>

definition cleanStep :: "bool \<Rightarrow> string list \<Rightarrow> string \<Rightarrow> string list" where
  "cleanStep rooted out e =
    (if e = [] \<or> e = ''.'' then out
     else if e = ''..'' then
       (if out \<noteq> [] \<and> last out \<noteq> ''..'' then butlast out
        else if \<not> rooted then out @ [''..'']
        else out)
     else out @ [e])"

definition cleanElems :: "bool \<Rightarrow> string list \<Rightarrow> string list" where
  "cleanElems rooted es = foldl (cleanStep rooted) [] es"

definition isRooted :: "string \<Rightarrow> bool" where
  "isRooted p = (case p of [] \<Rightarrow> False | c # _ \<Rightarrow> c = CHR ''/'')"

definition Clean :: "string \<Rightarrow> string" where
  "Clean p =
    (if p = [] then ''.''
     else let out = cleanElems (isRooted p) (splitOn CHR ''/'' p)
          in if isRooted p then CHR ''/'' # joinWith ''/'' out
             else if out = [] then ''.''
             else joinWith ''/'' out)"

text \<open>\<open>filepath.Join\<close> of two elements: empty elements are ignored, the rest is joined
  with the separator and cleaned; all elements empty gives the empty string.\<close>

definition Join :: "string \<Rightarrow> string \<Rightarrow> string" where
  "Join a b =
    (if a \<noteq> [] then Clean (a @ ''/'' @ b)
     else if b \<noteq> [] then Clean b
     else [])"

text \<open>\<open>filepath.Dir\<close>: everything up to and including the last separator, cleaned.\<close>

fun uptoLastSep :: "string \<Rightarrow> string" where
  "uptoLastSep [] = []"
| "uptoLastSep (c # cs) =
    (if CHR ''/'' \<in> set (c # cs) then c # uptoLastSep cs else [])"

definition Dir :: "string \<Rightarrow> string" where
  "Dir p = Clean (uptoLastSep p)"

subsection \<open>The file system\<close>

text \<open>
  A file system maps an absolute path, given as the list of its elements, to a directory or
  to a regular file with its bytes; the root \<open>[]\<close> is always a directory. A path string is
  resolved against the working directory lexically, as \<open>filepath.Clean\<close> does (symbolic
  links are not modelled), and the empty path string is \<open>ENOENT\<close>. Permission bits,
  ownership and disk space are not modelled: an operation fails only for the shape of the
  tree (a missing parent, a regular file where a directory is needed, a directory where a
  file is needed, a name that is taken).
\<close>

datatype node = Dir_node | File_node string

type_synonym fpath = "string list"
type_synonym filesys = "fpath \<Rightarrow> node option"

datatype errno = ENOENT | ENOTDIR | EISDIR | EEXIST

definition resolve :: "fpath \<Rightarrow> string \<Rightarrow> fpath" where
  "resolve cwd p =
    cleanElems True ((if isRooted p then [] else cwd) @ splitOn CHR ''/'' p)"

definition lookup :: "filesys \<Rightarrow> fpath \<Rightarrow> node option" where
  "lookup fs p = (if p = [] then Some Dir_node else fs p)"

definition isFile :: "filesys \<Rightarrow> fpath \<Rightarrow> bool" where
  "isFile fs p = (case lookup fs p of Some (File_node _) \<Rightarrow> True | _ \<Rightarrow> False)"

text \<open>The operations on resolved paths. \<open>fs_Stat\<close>: a regular file on the way to the path
  is \<open>ENOTDIR\<close>, a missing path is \<open>ENOENT\<close>.\<close>

definition fs_Stat :: "filesys \<Rightarrow> fpath \<Rightarrow> errno + node" where
  "fs_Stat fs p =
    (if list_ex (isFile fs) (butlast (prefixes p)) then Inl ENOTDIR
     else (case lookup fs p of None \<Rightarrow> Inl ENOENT | Some n \<Rightarrow> Inr n))"

text \<open>Opening with \<open>O_WRONLY|O_CREATE|O_TRUNC\<close>: the parent must be a directory and the
  path must not be one; the file is created or emptied.\<close>

definition fs_OpenFile :: "filesys \<Rightarrow> fpath \<Rightarrow> errno + filesys" where
  "fs_OpenFile fs p =
    (if p = [] then Inl EISDIR
     else (case fs_Stat fs (butlast p) of
             Inl e \<Rightarrow> Inl e
           | Inr (File_node _) \<Rightarrow> Inl ENOTDIR
           | Inr Dir_node \<Rightarrow>
               (case fs p of
                  Some Dir_node \<Rightarrow> Inl EISDIR
                | _ \<Rightarrow> Inr (fs(p \<mapsto> File_node [])))))"

definition fs_Mkdir :: "filesys \<Rightarrow> fpath \<Rightarrow> errno + filesys" where
  "fs_Mkdir fs p =
    (if p = [] then Inl EEXIST
     else (case fs_Stat fs (butlast p) of
             Inl e \<Rightarrow> Inl e
           | Inr (File_node _) \<Rightarrow> Inl ENOTDIR
           | Inr Dir_node \<Rightarrow>
               (case fs p of
                  Some _ \<Rightarrow> Inl EEXIST
                | None \<Rightarrow> Inr (fs(p \<mapsto> Dir_node)))))"

text \<open>\<open>os.MkdirAll\<close> walks down from the directory \<open>base\<close>, creating each missing
  directory; a regular file on the way is \<open>ENOTDIR\<close>.\<close>

fun mkdirFrom :: "filesys \<Rightarrow> fpath \<Rightarrow> string list \<Rightarrow> errno option \<times> filesys" where
  "mkdirFrom fs base [] = (None, fs)"
| "mkdirFrom fs base (c # cs) =
    (case fs (base @ [c]) of
       Some (File_node _) \<Rightarrow> (Some ENOTDIR, fs)
     | Some Dir_node \<Rightarrow> mkdirFrom fs (base @ [c]) cs
     | None \<Rightarrow> mkdirFrom (fs(base @ [c] \<mapsto> Dir_node)) (base @ [c]) cs)"

text \<open>The functions of package os, on path strings.\<close>

definition Stat :: "fpath \<Rightarrow> filesys \<Rightarrow> string \<Rightarrow> errno + node" where
  "Stat cwd fs p = (if p = [] then Inl ENOENT else fs_Stat fs (resolve cwd p))"

definition OpenFile :: "fpath \<Rightarrow> filesys \<Rightarrow> string \<Rightarrow> errno + filesys" where
  "OpenFile cwd fs p = (if p = [] then Inl ENOENT else fs_OpenFile fs (resolve cwd p))"

text \<open>Writing to an open file replaces its bytes (the file was just emptied).\<close>

definition writeBytes :: "fpath \<Rightarrow> filesys \<Rightarrow> string \<Rightarrow> string \<Rightarrow> filesys" where
  "writeBytes cwd fs p data = fs(resolve cwd p \<mapsto> File_node data)"

definition WriteFile :: "fpath \<Rightarrow> filesys \<Rightarrow> string \<Rightarrow> string \<Rightarrow> errno + filesys" where
  "WriteFile cwd fs p data =
    (case OpenFile cwd fs p of
       Inl e \<Rightarrow> Inl e
     | Inr fs' \<Rightarrow> Inr (writeBytes cwd fs' p data))"

definition ReadFile :: "fpath \<Rightarrow> filesys \<Rightarrow> string \<Rightarrow> errno + string" where
  "ReadFile cwd fs p =
    (case Stat cwd fs p of
       Inl e \<Rightarrow> Inl e
     | Inr Dir_node \<Rightarrow> Inl EISDIR
     | Inr (File_node d) \<Rightarrow> Inr d)"

definition Mkdir :: "fpath \<Rightarrow> filesys \<Rightarrow> string \<Rightarrow> errno + filesys" where
  "Mkdir cwd fs p = (if p = [] then Inl ENOENT else fs_Mkdir fs (resolve cwd p))"

definition MkdirAll :: "fpath \<Rightarrow> filesys \<Rightarrow> string \<Rightarrow> errno option \<times> filesys" where
  "MkdirAll cwd fs p = (if p = [] then (Some ENOENT, fs) else mkdirFrom fs [] (resolve cwd p))"

text \<open>\<open>os.Chmod\<close> changes no bytes; it fails when the path cannot be reached.\<close>

definition Chmod :: "fpath \<Rightarrow> filesys \<Rightarrow> string \<Rightarrow> errno option" where
  "Chmod cwd fs p = (case Stat cwd fs p of Inl e \<Rightarrow> Some e | Inr _ \<Rightarrow> None)"

text \<open>\<open>os.RemoveAll\<close>, and \<open>os.Remove\<close> of a file (the program ignores its error).\<close>

definition RemoveAll :: "fpath \<Rightarrow> filesys \<Rightarrow> string \<Rightarrow> filesys" where
  "RemoveAll cwd fs p =
    (if p = [] then fs else (\<lambda>q. if prefix (resolve cwd p) q then None else fs q))"

definition Remove :: "fpath \<Rightarrow> filesys \<Rightarrow> string \<Rightarrow> filesys" where
  "Remove cwd fs p =
    (if p \<noteq> [] \<and> isFile fs (resolve cwd p) then fs(resolve cwd p := None) else fs)"

text \<open>\<open>os.MkdirTemp(dir, "tfdown-*")\<close> tries one random name after the other until one is
  free; \<open>rs\<close> are the random strings it draws (Go gives up after 10000 of them).\<close>

definition joinPath :: "string \<Rightarrow> string \<Rightarrow> string" where
  "joinPath dir name =
    (if dir \<noteq> [] \<and> last dir = CHR ''/'' then dir @ name else dir @ ''/'' @ name)"

fun MkdirTemp :: "fpath \<Rightarrow> filesys \<Rightarrow> string \<Rightarrow> string list \<Rightarrow> errno + (string \<times> filesys)" where
  "MkdirTemp cwd fs dir [] = Inl EEXIST"
| "MkdirTemp cwd fs dir (r # rs) =
    (let name = joinPath dir (''tfdown-'' @ r)
     in (case Mkdir cwd fs name of
           Inl EEXIST \<Rightarrow> MkdirTemp cwd fs dir rs
         | Inl e \<Rightarrow> Inl e
         | Inr fs' \<Rightarrow> Inr (name, fs')))"

subsection \<open>Package bufio: Scanner with ScanLines\<close>

text \<open>
  The scanner returns the lines of the data without their terminator (a \<open>\n\<close> with an
  optional \<open>\r\<close> before it); a last line without terminator is returned when it is not
  empty. A line that does not fit the buffer (\<open>bufio.MaxScanTokenSize\<close>, 65536 bytes) stops
  the scan with \<open>ErrTooLong\<close>: the result holds the lines before it and the flag.
\<close>

definition dropCR :: "string \<Rightarrow> string" where
  "dropCR l = (if l \<noteq> [] \<and> last l = CHR 0x0D then butlast l else l)"

definition MaxScanTokenSize :: nat where
  "MaxScanTokenSize = 65536"

fun scanLines :: "string \<Rightarrow> string \<Rightarrow> string list \<times> bool" where
  "scanLines cur [] =
    (if cur = [] then ([], False)
     else if MaxScanTokenSize \<le> length cur then ([], True)
     else ([dropCR cur], False))"
| "scanLines cur (c # cs) =
    (if c = CHR 0x0A then
       (if MaxScanTokenSize \<le> length cur then ([], True)
        else (case scanLines [] cs of (ls, e) \<Rightarrow> (dropCR cur # ls, e)))
     else scanLines (cur @ [c]) cs)"

subsection \<open>config.go\<close>

record Config =
  Version :: string
  Install :: bool
  InstallPath :: string
  configPath :: string

text \<open>One constructor for each place where the program makes an error value
  (\<open>fmt.Errorf\<close>); \<open>ErrOS\<close> is an error of the operating system returned as it is.\<close>

datatype error =
    ErrOpenConfig errno
  | ErrReadConfig
  | ErrWriteConfig errno
  | ErrFetchLatest
  | ErrFetchLatestStatus int
  | ErrDecodeVersion
  | ErrNoVersion
  | ErrDownloading
  | ErrDownloadStatus int
  | ErrCreatingFile errno
  | ErrWritingFile
  | ErrOpenZip
  | ErrCreateDest errno
  | ErrIllegalPath string
  | ErrOS errno
  | ErrEntryOpen
  | ErrEntryRead
  | ErrInstallPathMissing string
  | ErrCreateTemp errno
  | ErrExtract error
  | ErrBinaryNotFound string
  | ErrCopy errno
  | ErrChmod errno

text \<open>\<open>NewConfig\<close>: \<open>home\<close> is the value of \<open>$HOME\<close>; \<open>os.UserHomeDir\<close> fails when it is
  empty.\<close>

definition NewConfig :: "string \<Rightarrow> Config" where
  "NewConfig home =
    (let homeDir = (if home = [] then ''.'' else home)
     in \<lparr>Version = [], Install = False, InstallPath = [],
         configPath = Join homeDir ''.tfdown.conf''\<rparr>)"

text \<open>The body of the loop of \<open>Load\<close> for one scanned line.\<close>

definition loadLine :: "Config \<Rightarrow> string \<Rightarrow> Config" where
  "loadLine c raw =
    (let line = TrimSpace raw
     in if line = [] \<or> HasPrefix line ''#'' then c
        else (case SplitN2 line of
                None \<Rightarrow> c
              | Some (k, v) \<Rightarrow>
                  let key = TrimSpace k; val = TrimSpace v
                  in if key = ''version'' then c\<lparr>Version := val\<rparr>
                     else if key = ''install'' then
                       c\<lparr>Install := (case ParseBool val of None \<Rightarrow> False | Some b \<Rightarrow> b)\<rparr>
                     else if key = ''install_path'' then c\<lparr>InstallPath := val\<rparr>
                     else c))"

text \<open>\<open>Load\<close> returns the configuration as the loop left it together with the error, since
  the caller keeps using the object after a failed load. Opening a directory succeeds and
  the first read fails.\<close>

definition Load :: "fpath \<Rightarrow> filesys \<Rightarrow> Config \<Rightarrow> Config \<times> error option" where
  "Load cwd fs c =
    (case Stat cwd fs (configPath c) of
       Inl ENOENT \<Rightarrow> (c, None)
     | Inl e \<Rightarrow> (c, Some (ErrOpenConfig e))
     | Inr Dir_node \<Rightarrow> (c, Some ErrReadConfig)
     | Inr (File_node d) \<Rightarrow>
         (case scanLines [] d of
            (ls, tooLong) \<Rightarrow>
              (foldl loadLine c ls, if tooLong then Some ErrReadConfig else None)))"

definition getCurrentDate :: string where
  "getCurrentDate = ''2026-02-05''"

definition saveContent :: "Config \<Rightarrow> string" where
  "saveContent c =
     ''# tfdown configuration file'' @ [CHR 0x0A]
     @ ''# Last updated: '' @ getCurrentDate @ [CHR 0x0A, CHR 0x0A]
     @ ''version='' @ Version c @ [CHR 0x0A]
     @ ''install='' @ fmtBool (Install c) @ [CHR 0x0A]
     @ ''install_path='' @ InstallPath c @ [CHR 0x0A]"

definition Save :: "fpath \<Rightarrow> filesys \<Rightarrow> Config \<Rightarrow> filesys \<times> error option" where
  "Save cwd fs c =
    (case WriteFile cwd fs (configPath c) (saveContent c) of
       Inl e \<Rightarrow> (fs, Some (ErrWriteConfig e))
     | Inr fs' \<Rightarrow> (fs', None))"

text \<open>\<open>Update\<close> returns the updated object, the file system and the error of \<open>Save\<close>.\<close>

definition Update ::
  "fpath \<Rightarrow> filesys \<Rightarrow> Config \<Rightarrow> string \<Rightarrow> bool \<Rightarrow> string
    \<Rightarrow> Config \<times> filesys \<times> error option" where
  "Update cwd fs c version install installPath =
    (let c1 = (if version \<noteq> [] then c\<lparr>Version := version\<rparr> else c);
         c2 = c1\<lparr>Install := install\<rparr>;
         c3 = c2\<lparr>InstallPath := installPath\<rparr>
     in (case Save cwd fs c3 of (fs', err) \<Rightarrow> (c3, fs', err)))"

subsection \<open>The environment and the state of a run\<close>

text \<open>
  What the program prints is recorded as a list of events, one constructor for each print
  statement (the progress bar, whose text is computed in floating point, is one event).
\<close>

datatype event =
    PrintHelp
  | PrintToolVersion
  | WarnLoadConfig error
  | PrintErrVersion error
  | PrintUpToDate string
  | PrintDownloading string string string
  | PrintURL string
  | PrintProgress
  | PrintDownloaded string
  | PrintErrDownload error
  | WarnSaveConfig error
  | PrintExtracting string
  | PrintInstalling string
  | PrintErrInstall error
  | PrintInstalled string string
  | PrintDownloadComplete string

text \<open>The answer to an HTTP GET: a transport error, or a response with its status code,
  its \<open>ContentLength\<close>, the bytes of the body that arrive, and whether reading the body
  ends in an error after them.\<close>

datatype httpResult = NetError | Response int int string bool

text \<open>An entry of an opened zip archive (\<open>zip.File\<close>): its name, whether
  \<open>FileInfo().IsDir()\<close> holds, and what \<open>Open\<close> and the copy of its content give: \<open>Open\<close>
  fails, or the content delivers bytes and then ends, with a read error or without.\<close>

datatype entryData = OpenFails | Data string bool

record entry =
  Name :: string
  IsDir :: bool
  content :: entryData

text \<open>
  The environment of a run: the working directory, \<open>$HOME\<close>, \<open>runtime.GOOS\<close> and
  \<open>runtime.GOARCH\<close>, \<open>os.TempDir()\<close> and the random names \<open>os.MkdirTemp\<close> draws, the
  network (the answer to the \<open>n\<close>-th request of the run, by its URL), the JSON decoder
  applied to a response body (it gives the field \<open>current_version\<close>, or \<open>None\<close> when decoding
  fails; the flag says that reading the body ended in an error), and the reader of package
  archive/zip applied to the bytes of a file (\<open>None\<close> when they are not a zip archive).
\<close>

record env =
  cwd :: fpath
  HOME :: string
  GOOS :: string
  GOARCH :: string
  TempDir :: string
  tempNames :: "string list"
  httpGet :: "nat \<Rightarrow> string \<Rightarrow> httpResult"
  jsonVersion :: "string \<Rightarrow> bool \<Rightarrow> string option"
  zipReader :: "string \<Rightarrow> entry list option"

text \<open>The state a run changes: the file system, what has been printed, and the URLs
  requested so far.\<close>

record world =
  fs :: filesys
  out :: "event list"
  reqs :: "string list"

definition say :: "event \<Rightarrow> world \<Rightarrow> world" where
  "say e w = w\<lparr>out := out w @ [e]\<rparr>"

definition Get :: "env \<Rightarrow> string \<Rightarrow> world \<Rightarrow> httpResult \<times> world" where
  "Get E url w = (httpGet E (length (reqs w)) url, w\<lparr>reqs := reqs w @ [url]\<rparr>)"

subsection \<open>downloader.go\<close>

definition terraformCheckURL :: string where
  "terraformCheckURL = ''https://checkpoint-api.hashicorp.com/v1/check/terraform''"

definition terraformDownloadURL :: "string \<Rightarrow> string \<Rightarrow> string \<Rightarrow> string" where
  "terraformDownloadURL ver os arch =
     ''https://releases.hashicorp.com/terraform/'' @ ver @ ''/terraform_'' @ ver @ ''_''
     @ os @ ''_'' @ arch @ ''.zip''"

definition StatusOK :: int where
  "StatusOK = 200"

record Downloader =
  targetOS :: string
  targetArch :: string
  targetVer :: string
  quiet :: bool

definition NewDownloader :: "env \<Rightarrow> string \<Rightarrow> string \<Rightarrow> string \<Rightarrow> bool \<Rightarrow> Downloader" where
  "NewDownloader E tos tarch tver q =
    \<lparr>targetOS = (if tos = [] then GOOS E else tos),
     targetArch = (if tarch = [] then GOARCH E else tarch),
     targetVer = tver, quiet = q\<rparr>"

definition GetLatestVersion :: "env \<Rightarrow> world \<Rightarrow> (error + string) \<times> world" where
  "GetLatestVersion E w =
    (case Get E terraformCheckURL w of
       (NetError, w1) \<Rightarrow> (Inl ErrFetchLatest, w1)
     | (Response status len body bodyErr, w1) \<Rightarrow>
         if status \<noteq> StatusOK then (Inl (ErrFetchLatestStatus status), w1)
         else (case jsonVersion E body bodyErr of
                 None \<Rightarrow> (Inl ErrDecodeVersion, w1)
               | Some v \<Rightarrow> if v = [] then (Inl ErrNoVersion, w1) else (Inr v, w1)))"

definition GetVersion :: "env \<Rightarrow> Downloader \<Rightarrow> world \<Rightarrow> (error + string) \<times> world" where
  "GetVersion E d w =
    (if targetVer d \<noteq> [] then (Inr (TrimPrefix (targetVer d) ''v''), w)
     else GetLatestVersion E w)"

definition zipFileName :: "string \<Rightarrow> string \<Rightarrow> string \<Rightarrow> string" where
  "zipFileName ver os arch = ''terraform_'' @ ver @ ''_'' @ os @ ''_'' @ arch @ ''.zip''"

text \<open>The part of \<open>Download\<close> after the version is known.\<close>

definition fetchArchive :: "env \<Rightarrow> Downloader \<Rightarrow> string \<Rightarrow> world \<Rightarrow> (error + string) \<times> world" where
  "fetchArchive E d ver0 w =
    (let ver = TrimPrefix ver0 ''v'';
         downloadURL = terraformDownloadURL ver (targetOS d) (targetArch d);
         zipFile = zipFileName ver (targetOS d) (targetArch d);
         w1 = say (PrintDownloading ver (targetOS d) (targetArch d)) w;
         w2 = (if \<not> quiet d then say (PrintURL downloadURL) w1 else w1)
     in (case Get E downloadURL w2 of
           (NetError, w3) \<Rightarrow> (Inl ErrDownloading, w3)
         | (Response status totalSize body bodyErr, w3) \<Rightarrow>
             if status \<noteq> StatusOK then (Inl (ErrDownloadStatus status), w3)
             else (case OpenFile (cwd E) (fs w3) zipFile of
                     Inl e \<Rightarrow> (Inl (ErrCreatingFile e), w3)
                   | Inr fs1 \<Rightarrow>
                       let w4 = w3\<lparr>fs := writeBytes (cwd E) fs1 zipFile body\<rparr>;
                           w5 = (if quiet d \<or> totalSize \<le> 0 then w4 else say PrintProgress w4)
                       in if bodyErr then (Inl ErrWritingFile, w5)
                          else (Inr zipFile, say (PrintDownloaded zipFile) w5))))"

definition Download :: "env \<Rightarrow> Downloader \<Rightarrow> world \<Rightarrow> (error + string) \<times> world" where
  "Download E d w =
    (if targetVer d = [] then
       (case GetLatestVersion E w of
          (Inl e, w1) \<Rightarrow> (Inl e, w1)
        | (Inr latest, w1) \<Rightarrow> fetchArchive E d latest w1)
     else fetchArchive E d (targetVer d) w)"

text \<open>\<open>zip.OpenReader\<close>.\<close>

definition OpenReader :: "env \<Rightarrow> filesys \<Rightarrow> string \<Rightarrow> entry list option" where
  "OpenReader E fs0 zipPath =
    (case ReadFile (cwd E) fs0 zipPath of
       Inl e \<Rightarrow> None
     | Inr bytes \<Rightarrow> zipReader E bytes)"

text \<open>The ZipSlip check of \<open>Unzip\<close> on the joined path of an entry.\<close>

definition illegalPath :: "string \<Rightarrow> string \<Rightarrow> bool" where
  "illegalPath destPath fpath = (\<not> HasPrefix fpath (Clean destPath @ ''/''))"

text \<open>The loop of \<open>Unzip\<close> over the entries of the archive. The error of \<open>MkdirAll\<close> for a
  directory entry is dropped, as in the source.\<close>

fun unzipEntries :: "fpath \<Rightarrow> string \<Rightarrow> entry list \<Rightarrow> filesys \<Rightarrow> error option \<times> filesys" where
  "unzipEntries wd destPath [] fs0 = (None, fs0)"
| "unzipEntries wd destPath (f # rest) fs0 =
    (let fpath = Join destPath (Name f)
     in if illegalPath destPath fpath then (Some (ErrIllegalPath fpath), fs0)
        else if IsDir f then unzipEntries wd destPath rest (snd (MkdirAll wd fs0 fpath))
        else (case MkdirAll wd fs0 (Dir fpath) of
                (Some e, fs1) \<Rightarrow> (Some (ErrOS e), fs1)
              | (None, fs1) \<Rightarrow>
                  (case OpenFile wd fs1 fpath of
                     Inl e \<Rightarrow> (Some (ErrOS e), fs1)
                   | Inr fs2 \<Rightarrow>
                       (case content f of
                          OpenFails \<Rightarrow> (Some ErrEntryOpen, fs2)
                        | Data bytes readErr \<Rightarrow>
                            if readErr then (Some ErrEntryRead, writeBytes wd fs2 fpath bytes)
                            else unzipEntries wd destPath rest
                                   (writeBytes wd fs2 fpath bytes)))))"

definition Unzip :: "env \<Rightarrow> string \<Rightarrow> string \<Rightarrow> filesys \<Rightarrow> error option \<times> filesys" where
  "Unzip E zipPath destPath fs0 =
    (case OpenReader E fs0 zipPath of
       None \<Rightarrow> (Some ErrOpenZip, fs0)
     | Some files \<Rightarrow>
         (case MkdirAll (cwd E) fs0 destPath of
            (Some e, fs1) \<Rightarrow> (Some (ErrCreateDest e), fs1)
          | (None, fs1) \<Rightarrow> unzipEntries (cwd E) destPath files fs1))"

subsection \<open>main.go\<close>

definition copyFile :: "fpath \<Rightarrow> filesys \<Rightarrow> string \<Rightarrow> string \<Rightarrow> errno + filesys" where
  "copyFile wd fs0 src dst =
    (case ReadFile wd fs0 src of
       Inl e \<Rightarrow> Inl e
     | Inr data \<Rightarrow> WriteFile wd fs0 dst data)"

text \<open>The part of \<open>installTerraform\<close> between the creation of the temporary directory and
  its deferred removal.\<close>

definition installFrom ::
  "env \<Rightarrow> string \<Rightarrow> string \<Rightarrow> string \<Rightarrow> world \<Rightarrow> error option \<times> world" where
  "installFrom E zipFile installPath tempDir w =
    (let w1 = say (PrintExtracting zipFile) w
     in (case Unzip E zipFile tempDir (fs w1) of
           (Some e, fs1) \<Rightarrow> (Some (ErrExtract e), w1\<lparr>fs := fs1\<rparr>)
         | (None, fs1) \<Rightarrow>
             let w2 = w1\<lparr>fs := fs1\<rparr>;
                 binaryName = (if Contains zipFile ''windows'' then ''terraform.exe''
                               else ''terraform'');
                 srcPath = Join tempDir binaryName
             in (case Stat (cwd E) (fs w2) srcPath of
                   Inl e \<Rightarrow> (Some (ErrBinaryNotFound srcPath), w2)
                 | Inr n \<Rightarrow>
                     let dstPath = Join installPath binaryName;
                         w3 = say (PrintInstalling dstPath) w2
                     in (case copyFile (cwd E) (fs w3) srcPath dstPath of
                           Inl e \<Rightarrow> (Some (ErrCopy e), w3)
                         | Inr fs4 \<Rightarrow>
                             let w4 = w3\<lparr>fs := fs4\<rparr>
                             in (case (if GOOS E \<noteq> ''windows''
                                       then Chmod (cwd E) (fs w4) dstPath else None) of
                                   Some e \<Rightarrow> (Some (ErrChmod e), w4)
                                 | None \<Rightarrow>
                                     (None, w4\<lparr>fs := Remove (cwd E) (fs w4) zipFile\<rparr>))))))"

definition installTerraform ::
  "env \<Rightarrow> string \<Rightarrow> string \<Rightarrow> world \<Rightarrow> error option \<times> world" where
  "installTerraform E zipFile installPath w =
    (case Stat (cwd E) (fs w) installPath of
       Inl ENOENT \<Rightarrow> (Some (ErrInstallPathMissing installPath), w)
     | _ \<Rightarrow>
        (case MkdirTemp (cwd E) (fs w) (TempDir E) (tempNames E) of
           Inl e \<Rightarrow> (Some (ErrCreateTemp e), w)
         | Inr (tempDir, fs1) \<Rightarrow>
             (case installFrom E zipFile installPath tempDir (w\<lparr>fs := fs1\<rparr>) of
                (r, w') \<Rightarrow> (r, w'\<lparr>fs := RemoveAll (cwd E) (fs w') tempDir\<rparr>))))"

text \<open>
  The command line after \<open>flag.Parse\<close>: the flags that were set, in order. Each name is
  bound to a variable; \<open>q\<close> and \<open>quiet\<close> share one, and so do \<open>f\<close> and \<open>force\<close>.
  \<open>flag.NFlag()\<close> counts the names that were set.
\<close>

datatype flagArg =
    F_os string
  | F_arch string
  | F_ver string
  | F_version bool
  | F_install bool
  | F_install_path string
  | F_quiet bool
  | F_q bool
  | F_force bool
  | F_f bool
  | F_help bool

record flags =
  targetOS_flag :: string
  targetArch_flag :: string
  targetVersion :: string
  showVersion :: bool
  installFlag :: bool
  installPath :: string
  quietMode :: bool
  forceFlag :: bool
  showHelp :: bool

definition defaultFlags :: flags where
  "defaultFlags =
    \<lparr>targetOS_flag = [], targetArch_flag = [], targetVersion = [], showVersion = False,
     installFlag = False, installPath = [], quietMode = False, forceFlag = False,
     showHelp = False\<rparr>"

fun setFlag :: "flags \<Rightarrow> flagArg \<Rightarrow> flags" where
  "setFlag fl (F_os s) = fl\<lparr>targetOS_flag := s\<rparr>"
| "setFlag fl (F_arch s) = fl\<lparr>targetArch_flag := s\<rparr>"
| "setFlag fl (F_ver s) = fl\<lparr>targetVersion := s\<rparr>"
| "setFlag fl (F_version b) = fl\<lparr>showVersion := b\<rparr>"
| "setFlag fl (F_install b) = fl\<lparr>installFlag := b\<rparr>"
| "setFlag fl (F_install_path s) = fl\<lparr>installPath := s\<rparr>"
| "setFlag fl (F_quiet b) = fl\<lparr>quietMode := b\<rparr>"
| "setFlag fl (F_q b) = fl\<lparr>quietMode := b\<rparr>"
| "setFlag fl (F_force b) = fl\<lparr>forceFlag := b\<rparr>"
| "setFlag fl (F_f b) = fl\<lparr>forceFlag := b\<rparr>"
| "setFlag fl (F_help b) = fl\<lparr>showHelp := b\<rparr>"

definition parseFlags :: "flagArg list \<Rightarrow> flags" where
  "parseFlags args = foldl setFlag defaultFlags args"

fun flagName :: "flagArg \<Rightarrow> string" where
  "flagName (F_os _) = ''os''"
| "flagName (F_arch _) = ''arch''"
| "flagName (F_ver _) = ''ver''"
| "flagName (F_version _) = ''version''"
| "flagName (F_install _) = ''install''"
| "flagName (F_install_path _) = ''install-path''"
| "flagName (F_quiet _) = ''quiet''"
| "flagName (F_q _) = ''q''"
| "flagName (F_force _) = ''force''"
| "flagName (F_f _) = ''f''"
| "flagName (F_help _) = ''help''"

definition NFlag :: "flagArg list \<Rightarrow> nat" where
  "NFlag args = length (remdups (map flagName args))"

text \<open>The condition of the branch of \<open>main\<close> that prints "Already up to date" and
  returns.\<close>

definition upToDate :: "bool \<Rightarrow> string \<Rightarrow> string \<Rightarrow> bool \<Rightarrow> bool \<Rightarrow> bool" where
  "upToDate autoUpdate configVersion ver install force =
    (autoUpdate \<and> configVersion = ver \<and> \<not> install \<and> \<not> force)"

text \<open>\<open>main\<close> from the download on. The result is the exit status and the state.\<close>

definition downloadAndInstall ::
  "env \<Rightarrow> Config \<Rightarrow> Downloader \<Rightarrow> string \<Rightarrow> bool \<Rightarrow> string \<Rightarrow> bool \<Rightarrow> world \<Rightarrow> nat \<times> world" where
  "downloadAndInstall E config downloader ver install0 path0 force w =
    (let fromConfig = (force \<and> Install config \<and> InstallPath config \<noteq> []);
         install1 = (if fromConfig then True else install0);
         path1 = (if fromConfig then InstallPath config else path0)
     in (case Download E downloader w of
           (Inl e, w1) \<Rightarrow> (1, say (PrintErrDownload e) w1)
         | (Inr zipFile, w1) \<Rightarrow>
             (case Update (cwd E) (fs w1) config ver install1 path1 of
                (config', fs2, saveErr) \<Rightarrow>
                  let w2 = w1\<lparr>fs := fs2\<rparr>;
                      w3 = (case saveErr of None \<Rightarrow> w2 | Some e \<Rightarrow> say (WarnSaveConfig e) w2)
                  in if install1 \<and> path1 \<noteq> [] then
                       (case installTerraform E zipFile path1 w3 of
                          (Some e, w4) \<Rightarrow> (1, say (PrintErrInstall e) w4)
                        | (None, w4) \<Rightarrow> (0, say (PrintInstalled ver path1) w4))
                     else (0, say (PrintDownloadComplete ver) w3))))"

definition main :: "env \<Rightarrow> flagArg list \<Rightarrow> world \<Rightarrow> nat \<times> world" where
  "main E args w =
    (let fl = parseFlags args
     in if showHelp fl then (0, say PrintHelp w)
        else if showVersion fl then (0, say PrintToolVersion w)
        else
          (case Load (cwd E) (fs w) (NewConfig (HOME E)) of
             (config, loadErr) \<Rightarrow>
               let w1 = (case loadErr of None \<Rightarrow> w | Some e \<Rightarrow> say (WarnLoadConfig e) w);
                   autoUpdate = (NFlag args = 0);
                   fromConfig = (autoUpdate \<and> Install config \<and> InstallPath config \<noteq> []);
                   install0 = (if fromConfig then True else installFlag fl);
                   path0 = (if fromConfig then InstallPath config else installPath fl);
                   downloader = NewDownloader E (targetOS_flag fl) (targetArch_flag fl)
                                  (targetVersion fl) (quietMode fl)
               in (case GetVersion E downloader w1 of
                     (Inl e, w2) \<Rightarrow> (1, say (PrintErrVersion e) w2)
                   | (Inr ver, w2) \<Rightarrow>
                       if upToDate autoUpdate (Version config) ver install0 (forceFlag fl)
                       then (0, say (PrintUpToDate ver) w2)
                       else downloadAndInstall E config downloader ver install0 path0
                              (forceFlag fl) w2)))"

subsection \<open>Derived notions and example data\<close>

text \<open>The configuration \<open>main\<close> works with after \<open>Load\<close>, and the state after the warning
  that a failed load prints.\<close>

definition loaded :: "env \<Rightarrow> world \<Rightarrow> Config" where
  "loaded E w = fst (Load (cwd E) (fs w) (NewConfig (HOME E)))"

definition afterLoad :: "env \<Rightarrow> world \<Rightarrow> world" where
  "afterLoad E w =
    (case snd (Load (cwd E) (fs w) (NewConfig (HOME E))) of
       None \<Rightarrow> w
     | Some e \<Rightarrow> say (WarnLoadConfig e) w)"

text \<open>The downloader \<open>main\<close> builds from the command line.\<close>

definition downloaderOf :: "env \<Rightarrow> flagArg list \<Rightarrow> Downloader" where
  "downloaderOf E args =
    NewDownloader E (targetOS_flag (parseFlags args)) (targetArch_flag (parseFlags args))
      (targetVersion (parseFlags args)) (quietMode (parseFlags args))"

text \<open>The joined path of an archive entry.\<close>

definition entryPath :: "string \<Rightarrow> entry \<Rightarrow> string" where
  "entryPath destPath f = Join destPath (Name f)"

text \<open>A home directory with a configuration file, as \<open>Save\<close> writes it.\<close>

definition conf_170_install :: string where
  "conf_170_install =
     ''# tfdown configuration file'' @ [CHR 0x0A]
     @ ''# Last updated: 2026-02-05'' @ [CHR 0x0A, CHR 0x0A]
     @ ''version=1.7.0'' @ [CHR 0x0A]
     @ ''install=true'' @ [CHR 0x0A]
     @ ''install_path=/usr/local/bin'' @ [CHR 0x0A]"

definition conf_170_plain :: string where
  "conf_170_plain =
     ''# tfdown configuration file'' @ [CHR 0x0A]
     @ ''# Last updated: 2026-02-05'' @ [CHR 0x0A, CHR 0x0A]
     @ ''version=1.7.0'' @ [CHR 0x0A]
     @ ''install=false'' @ [CHR 0x0A]
     @ ''install_path='' @ [CHR 0x0A]"

definition fs_dirs :: filesys where
  "fs_dirs =
    [[''home''] \<mapsto> Dir_node, [''home'', ''u''] \<mapsto> Dir_node, [''tmp''] \<mapsto> Dir_node,
     [''usr''] \<mapsto> Dir_node, [''usr'', ''local''] \<mapsto> Dir_node,
     [''usr'', ''local'', ''bin''] \<mapsto> Dir_node]"

definition fs_install :: filesys where
  "fs_install = fs_dirs([''home'', ''u'', ''.tfdown.conf''] \<mapsto> File_node conf_170_install)"

definition fs_plain :: filesys where
  "fs_plain = fs_dirs([''home'', ''u'', ''.tfdown.conf''] \<mapsto> File_node conf_170_plain)"

definition world_of :: "filesys \<Rightarrow> world" where
  "world_of f = \<lparr>fs = f, out = [], reqs = []\<rparr>"

text \<open>A network where the latest version is 1.7.0 and every archive is served, and one
  where the request for an archive is answered with status 404.\<close>

definition terraform_entry :: entry where
  "terraform_entry = \<lparr>Name = ''terraform'', IsDir = False, content = Data ''ELF'' False\<rparr>"

definition env_ok :: env where
  "env_ok =
    \<lparr>cwd = [''home'', ''u''], HOME = ''/home/u'', GOOS = ''linux'', GOARCH = ''amd64'',
     TempDir = ''/tmp'', tempNames = [''1234''],
     httpGet = (\<lambda>n url. Response 200 2 ''PK'' False),
     jsonVersion = (\<lambda>body bodyErr. Some ''1.7.0''),
     zipReader = (\<lambda>bytes. Some [terraform_entry])\<rparr>"


definition dl_170 :: Downloader where
  "dl_170 = \<lparr>targetOS = ''linux'', targetArch = ''amd64'', targetVer = ''1.7.0'', quiet = True\<rparr>"

definition dl_latest :: Downloader where
  "dl_latest = \<lparr>targetOS = ''linux'', targetArch = ''amd64'', targetVer = [], quiet = True\<rparr>"

text \<open>An archive whose second entry leaves the destination.\<close>

definition entry_a :: entry where
  "entry_a = \<lparr>Name = ''a.txt'', IsDir = False, content = Data ''one'' False\<rparr>"

definition entry_evil :: entry where
  "entry_evil = \<lparr>Name = ''../../evil'', IsDir = False, content = Data ''bad'' False\<rparr>"

definition entry_b :: entry where
  "entry_b = \<lparr>Name = ''b.txt'', IsDir = False, content = Data ''two'' False\<rparr>"

definition evil_archive :: "entry list" where
  "evil_archive = [entry_a, entry_evil, entry_b]"

definition env_404 :: env where
  "env_404 =
    env_ok\<lparr>httpGet := (\<lambda>n url. if url = terraformCheckURL then Response 200 2 ''{}'' False
                                else Response 404 0 [] False)\<rparr>"

definition env_evil :: env where
  "env_evil = env_ok\<lparr>cwd := [], zipReader := (\<lambda>bytes. Some evil_archive)\<rparr>"

definition fs_zip :: filesys where
  "fs_zip = fs_install([''home'', ''u'', ''tf.zip''] \<mapsto> File_node ''PK'')"

text \<open>A configuration file with lines that \<open>Load\<close> skips, and configurations to save.\<close>

definition conf_odd :: string where
  "conf_odd = ''install=true'' @ [CHR 0x0A] @ ''garbage'' @ [CHR 0x0A] @ ''color = blue'' @ [CHR 0x0A]
     @ ''install=maybe'' @ [CHR 0x0A] @ ''version=1.7.0'' @ [CHR 0x0A]"

definition fs_odd :: filesys where
  "fs_odd = fs_dirs([''home'', ''u'', ''.tfdown.conf''] \<mapsto> File_node conf_odd)"

text \<open>
  The lines of a file as \<open>bufio.ScanLines\<close> cuts them: the pieces between line feeds, where
  an empty piece after the last line feed is no line. A line is short when it fits the
  buffer of the scanner.
\<close>

definition fileLines :: "string \<Rightarrow> string list" where
  "fileLines d =
    (let ps = splitOn (CHR 0x0A) d in if last ps = [] then butlast ps else ps)"

definition shortLine :: "string \<Rightarrow> bool" where
  "shortLine l = (length l < MaxScanTokenSize)"

text \<open>
  The lines on which the loop of \<open>Load\<close> reaches its \<open>switch\<close> with one of the three known
  keys: not blank, not a comment, with a \<open>=\<close>, and the trimmed key one of \<open>version\<close>,
  \<open>install\<close>, \<open>install_path\<close>.
\<close>

definition knownKeyLine :: "string \<Rightarrow> bool" where
  "knownKeyLine raw =
    (let line = TrimSpace raw
     in line \<noteq> [] \<and> \<not> HasPrefix line ''#''
        \<and> (case SplitN2 line of
              None \<Rightarrow> False
            | Some (k, v) \<Rightarrow>
                TrimSpace k = ''version'' \<or> TrimSpace k = ''install''
                \<or> TrimSpace k = ''install_path''))"

text \<open>
  A configuration file whose first line has 65536 bytes and no \<open>=\<close>, and a file system in
  which the home directory of the configuration file is a regular file.
\<close>

definition conf_long_line :: string where
  "conf_long_line = replicate 65536 (CHR ''x'') @ [CHR 0x0A] @ ''version=1.7.0'' @ [CHR 0x0A]"

definition fs_long_line :: filesys where
  "fs_long_line = fs_dirs([''home'', ''u'', ''.tfdown.conf''] \<mapsto> File_node conf_long_line)"

definition fs_blocked :: filesys where
  "fs_blocked = [[''home''] \<mapsto> Dir_node, [''home'', ''u''] \<mapsto> File_node []]"

definition cfg_170 :: Config where
  "cfg_170 = \<lparr>Version = ''1.7.0'', Install = True, InstallPath = ''/usr/local/bin'',
              configPath = ''/home/u/.tfdown.conf''\<rparr>"

definition cfg_space :: Config where
  "cfg_space = cfg_170\<lparr>Version := '' 1.7.0''\<rparr>"

definition cfg_long :: Config where
  "cfg_long = cfg_170\<lparr>Version := replicate 65536 (CHR ''a'')\<rparr>"























section \<open>Properties\<close>

subsection \<open>Evaluating the string functions\<close>

lemma unicodeSpaces_bytes:
  "r \<in> set unicodeSpaces \<Longrightarrow> r \<noteq> [] \<and> (128::nat) \<le> of_char (hd r) \<and> (128::nat) \<le> of_char (last r)"
  unfolding unicodeSpaces_def by auto

lemma find_None_conv: "List.find P xs = None \<longleftrightarrow> (\<forall>x \<in> set xs. \<not> P x)"
  by (induction xs) auto

lemma leadWidth_ascii:
  assumes "\<not> asciiSpace c" "(of_char c :: nat) < 128"
  shows "leadWidth (c # cs) = 0"
proof -
  have "\<not> prefix r (c # cs)" if "r \<in> set unicodeSpaces" for r
  proof
    assume p: "prefix r (c # cs)"
    from unicodeSpaces_bytes [OF that] have "r \<noteq> []" "(128::nat) \<le> of_char (hd r)" by auto
    with p have "hd r = c" by (cases r) auto
    with \<open>(128::nat) \<le> of_char (hd r)\<close> assms(2) show False by simp
  qed
  then have "List.find (\<lambda>r. prefix r (c # cs)) unicodeSpaces = None"
    by (simp add: find_None_conv)
  then show ?thesis using assms(1) by (simp add: leadWidth_def)
qed

lemma trailWidth_ascii:
  assumes "s \<noteq> []" "\<not> asciiSpace (last s)" "(of_char (last s) :: nat) < 128"
  shows "trailWidth s = 0"
proof -
  have "\<not> suffix r s" if "r \<in> set unicodeSpaces" for r
  proof
    assume p: "suffix r s"
    from unicodeSpaces_bytes [OF that] have r: "r \<noteq> []" "(128::nat) \<le> of_char (last r)" by auto
    from p obtain xs where "s = xs @ r" by (auto simp: suffix_def)
    with r have "last s = last r" by simp
    with r assms(3) show False by simp
  qed
  then have "List.find (\<lambda>r. suffix r s) unicodeSpaces = None"
    by (simp add: find_None_conv)
  then show ?thesis using assms(1,2) by (simp add: trailWidth_def)
qed

lemma trimLeft_stop: "leadWidth s = 0 \<Longrightarrow> trimLeft s = s"
  by (subst trimLeft.simps) simp

lemma trimRight_stop: "trailWidth s = 0 \<Longrightarrow> trimRight s = s"
  by (subst trimRight.simps) simp

lemma trimLeft_Nil: "trimLeft [] = []"
  by (rule trimLeft_stop) (simp add: leadWidth_def)

lemma trimRight_Nil: "trimRight [] = []"
  by (rule trimRight_stop) (simp add: trailWidth_def)

lemma trimLeft_space: "asciiSpace c \<Longrightarrow> trimLeft (c # cs) = trimLeft cs"
  by (subst trimLeft.simps) (simp add: leadWidth_def)

lemma trimRight_space: "s \<noteq> [] \<Longrightarrow> asciiSpace (last s) \<Longrightarrow> trimRight s = trimRight (butlast s)"
  by (subst trimRight.simps) (simp add: trailWidth_def butlast_conv_take)

lemma trimLeft_ascii: "\<not> asciiSpace c \<Longrightarrow> (of_char c :: nat) < 128 \<Longrightarrow> trimLeft (c # cs) = c # cs"
  by (simp add: trimLeft_stop leadWidth_ascii)

lemma trimRight_ascii:
  "s \<noteq> [] \<Longrightarrow> \<not> asciiSpace (last s) \<Longrightarrow> (of_char (last s) :: nat) < 128 \<Longrightarrow> trimRight s = s"
  by (simp add: trimRight_stop trailWidth_ascii)

lemmas trim_eval = TrimSpace_def trimLeft_Nil trimRight_Nil trimLeft_space trimRight_space
  trimLeft_ascii trimRight_ascii asciiSpace_def


lemmas path_eval = resolve_def isRooted_def cleanElems_def cleanStep_def Clean_def Join_def Dir_def

lemmas fs_eval = Stat_def fs_Stat_def lookup_def isFile_def OpenFile_def fs_OpenFile_def
  WriteFile_def writeBytes_def ReadFile_def Mkdir_def fs_Mkdir_def MkdirAll_def

lemma Load_fs_plain:
  "Load [''home'', ''u''] fs_plain (NewConfig ''/home/u'') =
     (\<lparr>Version = ''1.7.0'', Install = False, InstallPath = [],
       configPath = ''/home/u/.tfdown.conf''\<rparr>, None)"
  by (simp add: Load_def NewConfig_def path_eval fs_eval fs_plain_def fs_dirs_def
      conf_170_plain_def MaxScanTokenSize_def dropCR_def loadLine_def trim_eval HasPrefix_def
      ParseBool_def Let_def)

lemma Load_fs_install:
  "Load [''home'', ''u''] fs_install (NewConfig ''/home/u'') =
     (\<lparr>Version = ''1.7.0'', Install = True, InstallPath = ''/usr/local/bin'',
       configPath = ''/home/u/.tfdown.conf''\<rparr>, None)"
  by (simp add: Load_def NewConfig_def path_eval fs_eval fs_install_def fs_dirs_def
      conf_170_install_def MaxScanTokenSize_def dropCR_def loadLine_def trim_eval HasPrefix_def
      ParseBool_def Let_def)

lemma loaded_plain:
  "loaded env_ok (world_of fs_plain) =
     \<lparr>Version = ''1.7.0'', Install = False, InstallPath = [],
      configPath = ''/home/u/.tfdown.conf''\<rparr>"
  by (simp add: loaded_def env_ok_def world_of_def Load_fs_plain)

lemma loaded_install:
  "loaded env_ok (world_of fs_install) =
     \<lparr>Version = ''1.7.0'', Install = True, InstallPath = ''/usr/local/bin'',
      configPath = ''/home/u/.tfdown.conf''\<rparr>"
  by (simp add: loaded_def env_ok_def world_of_def Load_fs_install)

lemma latest_env_ok: "fst (GetLatestVersion env_ok w) = Inr ''1.7.0''"
  by (simp add: GetLatestVersion_def Get_def env_ok_def StatusOK_def)

subsection \<open>The persisted state\<close>

lemma WriteFile_content:
  "WriteFile wd fs0 p d = Inr fs1 \<Longrightarrow> fs1 (resolve wd p) = Some (File_node d)"
  by (auto simp: WriteFile_def writeBytes_def split: sum.splits)

lemma Save_ok_content:
  "Save wd fs0 c = (fs1, None) \<Longrightarrow> fs1 (resolve wd (configPath c)) = Some (File_node (saveContent c))"
  by (auto simp: Save_def split: sum.splits dest: WriteFile_content)

text \<open>
  Claim C9. \<open>Update\<close> keeps the stored version when the version argument is empty and
  takes the argument otherwise, overwrites the install flag and the install path whatever
  they were, and then saves exactly that record: its file system and error are those of
  \<open>Save\<close> on the updated object, and when the save succeeds the configuration file holds
  the serialisation of the whole updated record.
\<close>

theorem Update_merges_then_saves:
  "fst (Update wd fs0 c v i p)
     = c\<lparr>Version := (if v = [] then Version c else v), Install := i, InstallPath := p\<rparr>
   \<and> snd (Update wd fs0 c v i p) = Save wd fs0 (fst (Update wd fs0 c v i p))
   \<and> (snd (snd (Update wd fs0 c v i p)) = None \<longrightarrow>
        fst (snd (Update wd fs0 c v i p)) (resolve wd (configPath c))
          = Some (File_node (saveContent (fst (Update wd fs0 c v i p)))))"
proof -
  obtain c' where c': "c' = c\<lparr>Version := (if v = [] then Version c else v), Install := i, InstallPath := p\<rparr>" by simp
  obtain fs1 err where sv: "Save wd fs0 c' = (fs1, err)" by (cases "Save wd fs0 c'")
  have u: "Update wd fs0 c v i p = (c', fs1, err)"
    using sv by (cases "v = []") (simp_all add: Update_def c' Let_def)
  have "err = None \<longrightarrow> fs1 (resolve wd (configPath c')) = Some (File_node (saveContent c'))"
    using sv Save_ok_content by blast
  moreover have "configPath c' = configPath c" by (simp add: c')
  ultimately show ?thesis using u sv c' by simp
qed

theorem Update_merges_then_saves_witness:
  "snd (snd (Update [] fs_dirs (NewConfig ''/home/u'') ''1.7.0'' True ''/usr/local/bin'')) = None
   \<and> fst (snd (Update [] fs_dirs (NewConfig ''/home/u'') ''1.7.0'' True ''/usr/local/bin''))
         [''home'', ''u'', ''.tfdown.conf'']
      = Some (File_node conf_170_install)"
proof -
  let ?u = "Update [] fs_dirs (NewConfig ''/home/u'') ''1.7.0'' True ''/usr/local/bin''"
  note t = Update_merges_then_saves [of "[]" fs_dirs "NewConfig ''/home/u''" "''1.7.0''" True
      "''/usr/local/bin''"]
  have ok: "snd (snd ?u) = None"
    by (simp add: Update_def Save_def NewConfig_def path_eval fs_eval fs_dirs_def Let_def)
  have a: "fst ?u = \<lparr>Version = ''1.7.0'', Install = True, InstallPath = ''/usr/local/bin'',
                      configPath = ''/home/u/.tfdown.conf''\<rparr>"
    using t by (simp add: NewConfig_def path_eval)
  have p: "resolve [] (configPath (NewConfig ''/home/u'')) = [''home'', ''u'', ''.tfdown.conf'']"
    by (simp add: NewConfig_def path_eval)
  have "fst (snd ?u) (resolve [] (configPath (NewConfig ''/home/u'')))
          = Some (File_node (saveContent (fst ?u)))"
    using t ok by blast
  then have "fst (snd ?u) [''home'', ''u'', ''.tfdown.conf''] = Some (File_node conf_170_install)"
    by (simp add: p a saveContent_def conf_170_install_def getCurrentDate_def fmtBool_def)
  with ok show ?thesis by blast
qed

subsection \<open>Version resolution\<close>

text \<open>
  Claim C7. With a non-empty explicit version \<open>GetVersion\<close> returns it without one leading
  \<open>v\<close> and leaves the state as it was, so no request is made (the request log is part of
  the state); \<open>v1.7.0\<close> and \<open>1.7.0\<close> both give \<open>1.7.0\<close>; with the empty version it is
  \<open>GetLatestVersion\<close>.
\<close>

theorem GetVersion_explicit_or_latest:
  "(targetVer d \<noteq> [] \<longrightarrow>
      GetVersion E d w = (Inr (TrimPrefix (targetVer d) ''v''), w))
   \<and> TrimPrefix (CHR ''v'' # rest) ''v'' = rest
   \<and> (\<not> HasPrefix s ''v'' \<longrightarrow> TrimPrefix s ''v'' = s)
   \<and> GetVersion E (d\<lparr>targetVer := ''v1.7.0''\<rparr>) w = (Inr ''1.7.0'', w)
   \<and> GetVersion E (d\<lparr>targetVer := ''1.7.0''\<rparr>) w = (Inr ''1.7.0'', w)
   \<and> (targetVer d = [] \<longrightarrow> GetVersion E d w = GetLatestVersion E w)"
  by (simp add: GetVersion_def TrimPrefix_def HasPrefix_def)

theorem GetVersion_explicit_or_latest_witness:
  "targetVer dl_170 \<noteq> []
   \<and> GetVersion env_ok dl_170 (world_of fs_dirs) = (Inr ''1.7.0'', world_of fs_dirs)
   \<and> \<not> HasPrefix ''1.7.0'' ''v'' \<and> TrimPrefix ''1.7.0'' ''v'' = ''1.7.0''
   \<and> targetVer dl_latest = []
   \<and> GetVersion env_ok dl_latest (world_of fs_dirs) = GetLatestVersion env_ok (world_of fs_dirs)"
  using GetVersion_explicit_or_latest [of dl_170 env_ok "world_of fs_dirs" "[]" "''1.7.0''"]
        GetVersion_explicit_or_latest [of dl_latest env_ok "world_of fs_dirs" "[]" "''1.7.0''"]
  by (simp add: dl_170_def dl_latest_def TrimPrefix_def HasPrefix_def)

subsection \<open>The decision to skip the download\<close>

lemma NFlag_zero: "NFlag args = 0 \<longleftrightarrow> args = []"
  by (simp add: NFlag_def)

lemma GetLatestVersion_fs: "fs (snd (GetLatestVersion E w)) = fs w"
  by (simp add: GetLatestVersion_def Get_def split: httpResult.splits option.splits)

lemma GetLatestVersion_reqs: "reqs (snd (GetLatestVersion E w)) = reqs w @ [terraformCheckURL]"
  by (simp add: GetLatestVersion_def Get_def split: httpResult.splits option.splits)

lemma GetLatestVersion_out: "out (snd (GetLatestVersion E w)) = out w"
  by (simp add: GetLatestVersion_def Get_def split: httpResult.splits option.splits)

lemma afterLoad_fs: "fs (afterLoad E w) = fs w"
  by (simp add: afterLoad_def say_def split: option.splits)

lemma afterLoad_reqs: "reqs (afterLoad E w) = reqs w"
  by (simp add: afterLoad_def say_def split: option.splits)

lemma downloaderOf_Nil: "downloaderOf E [] = NewDownloader E [] [] [] False"
  by (simp add: downloaderOf_def parseFlags_def defaultFlags_def)

lemma main_auto:
  assumes "fst (GetVersion E (downloaderOf E []) (afterLoad E w)) = Inr ver"
  shows "main E [] w =
     (if Version (loaded E w) = ver \<and> \<not> (Install (loaded E w) \<and> InstallPath (loaded E w) \<noteq> [])
      then (0, say (PrintUpToDate ver) (snd (GetVersion E (downloaderOf E []) (afterLoad E w))))
      else downloadAndInstall E (loaded E w) (downloaderOf E []) ver
             (Install (loaded E w) \<and> InstallPath (loaded E w) \<noteq> [])
             (if Install (loaded E w) \<and> InstallPath (loaded E w) \<noteq> [] then InstallPath (loaded E w) else [])
             False (snd (GetVersion E (downloaderOf E []) (afterLoad E w))))"
proof -
  obtain c le where l: "Load (cwd E) (fs w) (NewConfig (HOME E)) = (c, le)"
    by (cases "Load (cwd E) (fs w) (NewConfig (HOME E))")
  obtain r w2 where g: "GetVersion E (downloaderOf E []) (afterLoad E w) = (r, w2)"
    by (cases "GetVersion E (downloaderOf E []) (afterLoad E w)")
  with assms have r: "r = Inr ver" by simp
  have g': "GetVersion E (NewDownloader E [] [] [] False) (case le of None \<Rightarrow> w | Some e \<Rightarrow> say (WarnLoadConfig e) w) = (Inr ver, w2)"
    using g r l by (simp add: downloaderOf_Nil afterLoad_def)
  show ?thesis
    using l g g' r
    by (auto simp add: main_def parseFlags_def defaultFlags_def NFlag_def loaded_def
        upToDate_def Let_def downloaderOf_Nil)
qed

lemma forceFlag_args: "forceFlag (parseFlags args) \<Longrightarrow> NFlag args \<noteq> 0"
  by (auto simp: NFlag_zero parseFlags_def defaultFlags_def)

lemma main_forced:
  assumes "forceFlag (parseFlags args)" "\<not> showHelp (parseFlags args)"
    "\<not> showVersion (parseFlags args)"
    "fst (GetVersion E (downloaderOf E args) (afterLoad E w)) = Inr ver"
  shows "main E args w =
     downloadAndInstall E (loaded E w) (downloaderOf E args)
       ver (installFlag (parseFlags args)) (installPath (parseFlags args)) True
       (snd (GetVersion E (downloaderOf E args) (afterLoad E w)))"
proof -
  obtain c le where l: "Load (cwd E) (fs w) (NewConfig (HOME E)) = (c, le)"
    by (cases "Load (cwd E) (fs w) (NewConfig (HOME E))")
  obtain r w2 where g: "GetVersion E (downloaderOf E args) (afterLoad E w) = (r, w2)"
    by (cases "GetVersion E (downloaderOf E args) (afterLoad E w)")
  with assms have r: "r = Inr ver" by simp
  show ?thesis
    using l g r assms(1-3) forceFlag_args [OF assms(1)]
    by (auto simp add: main_def loaded_def afterLoad_def downloaderOf_def upToDate_def Let_def)
qed

lemma Download_requests:
  "reqs (snd (Download E d w)) \<noteq> reqs w"
  by (auto simp: Download_def fetchArchive_def GetLatestVersion_def Get_def say_def Let_def
      split: httpResult.splits option.splits sum.splits prod.splits)

lemma installFrom_reqs: "reqs (snd (installFrom E z p t w)) = reqs w"
  by (simp add: installFrom_def say_def Let_def split: prod.splits option.splits sum.splits)

lemma installTerraform_unfold:
  "installTerraform E zipFile p w =
    (if Stat (cwd E) (fs w) p = Inl ENOENT then (Some (ErrInstallPathMissing p), w)
     else (case MkdirTemp (cwd E) (fs w) (TempDir E) (tempNames E) of
           Inl e \<Rightarrow> (Some (ErrCreateTemp e), w)
         | Inr (tempDir, fs1) \<Rightarrow>
             (fst (installFrom E zipFile p tempDir (w\<lparr>fs := fs1\<rparr>)),
              (snd (installFrom E zipFile p tempDir (w\<lparr>fs := fs1\<rparr>)))
                \<lparr>fs := RemoveAll (cwd E) (fs (snd (installFrom E zipFile p tempDir (w\<lparr>fs := fs1\<rparr>)))) tempDir\<rparr>)))"
  by (simp add: installTerraform_def split_beta split: sum.splits errno.splits)

lemma installTerraform_reqs: "reqs (snd (installTerraform E z p w)) = reqs w"
  by (simp add: installTerraform_unfold installFrom_reqs split: sum.splits prod.splits)

lemma downloadAndInstall_requests:
  "reqs (snd (downloadAndInstall E c d ver i p f w)) = reqs (snd (Download E d w))"
  by (simp add: downloadAndInstall_def Let_def split_beta say_def installTerraform_reqs
      split: sum.splits option.splits)


text \<open>
  Claim C2. The branch that prints "Already up to date" is taken when the run is unattended,
  the versions are equal and neither the install flag nor the force flag is set, and never
  when the force flag is set. In \<open>main\<close>: an unattended run (no flag on the command line)
  whose configuration holds the resolved version and does not enable installation ends with
  status 0 after the version lookup, its only request, with the file system as it was; a
  run with the force flag goes on to the download whatever the versions are, and the download
  makes a request.
\<close>

theorem skip_decision:
  "upToDate True v v False False
   \<and> \<not> upToDate a cv rv i True
   \<and> (fst (GetVersion E (downloaderOf E []) (afterLoad E w)) = Inr ver
        \<and> Version (loaded E w) = ver
        \<and> \<not> (Install (loaded E w) \<and> InstallPath (loaded E w) \<noteq> [])
      \<longrightarrow> main E [] w
            = (0, say (PrintUpToDate ver) (snd (GetVersion E (downloaderOf E []) (afterLoad E w))))
          \<and> fs (snd (main E [] w)) = fs w
          \<and> reqs (snd (main E [] w)) = reqs w @ [terraformCheckURL])
   \<and> (forceFlag (parseFlags args) \<and> \<not> showHelp (parseFlags args)
        \<and> \<not> showVersion (parseFlags args)
        \<and> fst (GetVersion E (downloaderOf E args) (afterLoad E w)) = Inr ver
      \<longrightarrow> main E args w
            = downloadAndInstall E (loaded E w) (downloaderOf E args) ver
                (installFlag (parseFlags args)) (installPath (parseFlags args)) True
                (snd (GetVersion E (downloaderOf E args) (afterLoad E w)))
          \<and> reqs (snd (main E args w))
            \<noteq> reqs (snd (GetVersion E (downloaderOf E args) (afterLoad E w))))"
proof -
  have 1: "upToDate True v v False False" and 2: "\<not> upToDate a cv rv i True"
    by (simp_all add: upToDate_def)
  have 3: "main E [] w
            = (0, say (PrintUpToDate ver) (snd (GetVersion E (downloaderOf E []) (afterLoad E w))))
          \<and> fs (snd (main E [] w)) = fs w
          \<and> reqs (snd (main E [] w)) = reqs w @ [terraformCheckURL]"
    if g: "fst (GetVersion E (downloaderOf E []) (afterLoad E w)) = Inr ver"
      and v: "Version (loaded E w) = ver"
      and n: "\<not> (Install (loaded E w) \<and> InstallPath (loaded E w) \<noteq> [])"
  proof -
    have m: "main E [] w
       = (0, say (PrintUpToDate ver) (snd (GetVersion E (downloaderOf E []) (afterLoad E w))))"
      using main_auto [OF g] v n by simp
    have l: "GetVersion E (downloaderOf E []) (afterLoad E w) = GetLatestVersion E (afterLoad E w)"
      by (simp add: GetVersion_def downloaderOf_Nil NewDownloader_def)
    show ?thesis
      by (simp add: m l say_def GetLatestVersion_fs GetLatestVersion_reqs afterLoad_fs afterLoad_reqs)
  qed
  have 4: "main E args w
            = downloadAndInstall E (loaded E w) (downloaderOf E args) ver
                (installFlag (parseFlags args)) (installPath (parseFlags args)) True
                (snd (GetVersion E (downloaderOf E args) (afterLoad E w)))
          \<and> reqs (snd (main E args w))
            \<noteq> reqs (snd (GetVersion E (downloaderOf E args) (afterLoad E w)))"
    if "forceFlag (parseFlags args)" "\<not> showHelp (parseFlags args)"
       "\<not> showVersion (parseFlags args)"
       "fst (GetVersion E (downloaderOf E args) (afterLoad E w)) = Inr ver"
    using main_forced [OF that]
    by (simp add: downloadAndInstall_requests Download_requests)
  from 1 2 3 4 show ?thesis by blast
qed

theorem skip_decision_witness:
  "fst (GetVersion env_ok (downloaderOf env_ok []) (afterLoad env_ok (world_of fs_plain)))
      = Inr ''1.7.0''
   \<and> Version (loaded env_ok (world_of fs_plain)) = ''1.7.0''
   \<and> \<not> (Install (loaded env_ok (world_of fs_plain))
         \<and> InstallPath (loaded env_ok (world_of fs_plain)) \<noteq> [])
   \<and> fst (main env_ok [] (world_of fs_plain)) = 0
   \<and> fs (snd (main env_ok [] (world_of fs_plain))) = fs_plain
   \<and> reqs (snd (main env_ok [] (world_of fs_plain))) = [terraformCheckURL]
   \<and> forceFlag (parseFlags [F_f True])
   \<and> \<not> showHelp (parseFlags [F_f True])
   \<and> \<not> showVersion (parseFlags [F_f True])
   \<and> fst (GetVersion env_ok (downloaderOf env_ok [F_f True]) (afterLoad env_ok (world_of fs_plain)))
      = Inr ''1.7.0''
   \<and> reqs (snd (main env_ok [F_f True] (world_of fs_plain)))
      \<noteq> reqs (snd (GetVersion env_ok (downloaderOf env_ok [F_f True])
                      (afterLoad env_ok (world_of fs_plain))))"
proof -
  have g1: "fst (GetVersion env_ok (downloaderOf env_ok []) (afterLoad env_ok (world_of fs_plain)))
      = Inr ''1.7.0''"
    by (simp add: GetVersion_def downloaderOf_Nil NewDownloader_def latest_env_ok)
  have g2: "fst (GetVersion env_ok (downloaderOf env_ok [F_f True]) (afterLoad env_ok (world_of fs_plain)))
      = Inr ''1.7.0''"
    by (simp add: GetVersion_def downloaderOf_def parseFlags_def defaultFlags_def
        NewDownloader_def latest_env_ok)
  have f: "forceFlag (parseFlags [F_f True])" "\<not> showHelp (parseFlags [F_f True])"
    "\<not> showVersion (parseFlags [F_f True])"
    by (simp_all add: parseFlags_def defaultFlags_def)
  have c: "Version (loaded env_ok (world_of fs_plain)) = ''1.7.0''"
    "\<not> (Install (loaded env_ok (world_of fs_plain))
         \<and> InstallPath (loaded env_ok (world_of fs_plain)) \<noteq> [])"
    by (simp_all add: loaded_plain)
  note t = skip_decision [of "''1.7.0''" True "''1.7.0''" "''1.7.0''" False env_ok
      "world_of fs_plain" "''1.7.0''" "[F_f True]"]
  from t g1 c have m: "main env_ok [] (world_of fs_plain)
            = (0, say (PrintUpToDate ''1.7.0'') (snd (GetVersion env_ok (downloaderOf env_ok []) (afterLoad env_ok (world_of fs_plain)))))"
    and m2: "fs (snd (main env_ok [] (world_of fs_plain))) = fs (world_of fs_plain)"
    and m3: "reqs (snd (main env_ok [] (world_of fs_plain))) = reqs (world_of fs_plain) @ [terraformCheckURL]"
    by blast+
  have m1: "fst (main env_ok [] (world_of fs_plain)) = 0"
    by (simp add: m)
  have m2': "fs (snd (main env_ok [] (world_of fs_plain))) = fs_plain"
    using m2 by (simp add: world_of_def)
  have m3': "reqs (snd (main env_ok [] (world_of fs_plain))) = [terraformCheckURL]"
    using m3 by (simp add: world_of_def)
  from t g2 f have r: "reqs (snd (main env_ok [F_f True] (world_of fs_plain)))
      \<noteq> reqs (snd (GetVersion env_ok (downloaderOf env_ok [F_f True])
                      (afterLoad env_ok (world_of fs_plain))))"
    by blast
  show ?thesis using g1 g2 f c m1 m2' m3' r by blast
qed


subsection \<open>Download\<close>

lemma fetchArchive_bad_status:
  assumes "httpGet E (length (reqs w))
             (terraformDownloadURL (TrimPrefix ver ''v'') (targetOS d) (targetArch d))
           = Response status n body be"
    and "status \<noteq> StatusOK"
  shows "fst (fetchArchive E d ver w) = Inl (ErrDownloadStatus status)
         \<and> fs (snd (fetchArchive E d ver w)) = fs w"
  using assms by (simp add: fetchArchive_def Get_def say_def Let_def)

text \<open>
  Claim C5, as amended. \<open>Download\<close> checks the status before it creates the local file:
  when the request for the archive is answered with a status other than 200, \<open>Download\<close>
  returns the status error and the file system is the one it started with, whether the
  version was given or looked up first.
\<close>

theorem Download_bad_status_writes_nothing:
  "(targetVer d \<noteq> []
      \<and> httpGet E (length (reqs w))
            (terraformDownloadURL (TrimPrefix (targetVer d) ''v'') (targetOS d) (targetArch d))
          = Response status n body be
      \<and> status \<noteq> StatusOK
    \<longrightarrow> fst (Download E d w) = Inl (ErrDownloadStatus status)
        \<and> fs (snd (Download E d w)) = fs w)
   \<and> (targetVer d = []
      \<and> fst (GetLatestVersion E w) = Inr latest
      \<and> httpGet E (Suc (length (reqs w)))
            (terraformDownloadURL (TrimPrefix latest ''v'') (targetOS d) (targetArch d))
          = Response status n body be
      \<and> status \<noteq> StatusOK
    \<longrightarrow> fst (Download E d w) = Inl (ErrDownloadStatus status)
        \<and> fs (snd (Download E d w)) = fs w)"
proof -
  have a: "fst (Download E d w) = Inl (ErrDownloadStatus status)
        \<and> fs (snd (Download E d w)) = fs w"
    if "targetVer d \<noteq> []"
      "httpGet E (length (reqs w))
            (terraformDownloadURL (TrimPrefix (targetVer d) ''v'') (targetOS d) (targetArch d))
          = Response status n body be"
      "status \<noteq> StatusOK"
    using that fetchArchive_bad_status [of E w "targetVer d" d status n body be]
    by (simp add: Download_def)
  have b: "fst (Download E d w) = Inl (ErrDownloadStatus status)
        \<and> fs (snd (Download E d w)) = fs w"
    if t: "targetVer d = []"
      and l: "fst (GetLatestVersion E w) = Inr latest"
      and h: "httpGet E (Suc (length (reqs w)))
            (terraformDownloadURL (TrimPrefix latest ''v'') (targetOS d) (targetArch d))
          = Response status n body be"
      and s: "status \<noteq> StatusOK"
  proof -
    obtain w1 where g: "GetLatestVersion E w = (Inr latest, w1)"
      using l by (cases "GetLatestVersion E w") simp
    have r: "reqs w1 = reqs w @ [terraformCheckURL]" and f: "fs w1 = fs w"
      using GetLatestVersion_reqs [of E w] GetLatestVersion_fs [of E w] g by simp_all
    have "length (reqs w1) = Suc (length (reqs w))" by (simp add: r)
    with h fetchArchive_bad_status [of E w1 latest d status n body be] s
    have "fst (fetchArchive E d latest w1) = Inl (ErrDownloadStatus status)
         \<and> fs (snd (fetchArchive E d latest w1)) = fs w1" by simp
    then show ?thesis using t g f by (simp add: Download_def)
  qed
  from a b show ?thesis by blast
qed

lemma url_ne: "terraformDownloadURL v os a \<noteq> terraformCheckURL"
  by (simp add: terraformDownloadURL_def terraformCheckURL_def)

text \<open>
  Claim C5 as stated fails: after a 404 for the archive of an explicit version there is the
  status error and no local file.
\<close>

theorem Download_status_404_counterexample:
  "fst (Download env_404 dl_170 (world_of fs_dirs)) = Inl (ErrDownloadStatus 404)
   \<and> fs (snd (Download env_404 dl_170 (world_of fs_dirs)))
        [''home'', ''u'', ''terraform_1.7.0_linux_amd64.zip''] = None"
  by (simp add: Download_def fetchArchive_def Get_def say_def Let_def env_404_def env_ok_def
      dl_170_def url_ne StatusOK_def world_of_def fs_dirs_def)

theorem Download_bad_status_writes_nothing_witness:
  "targetVer dl_170 \<noteq> []
   \<and> httpGet env_404 (length (reqs (world_of fs_dirs)))
        (terraformDownloadURL (TrimPrefix (targetVer dl_170) ''v'') (targetOS dl_170) (targetArch dl_170))
      = Response 404 0 [] False
   \<and> (404::int) \<noteq> StatusOK
   \<and> fst (Download env_404 dl_170 (world_of fs_dirs)) = Inl (ErrDownloadStatus 404)
   \<and> fs (snd (Download env_404 dl_170 (world_of fs_dirs))) = fs_dirs
   \<and> targetVer dl_latest = []
   \<and> fst (GetLatestVersion env_404 (world_of fs_dirs)) = Inr ''1.7.0''
   \<and> httpGet env_404 (Suc (length (reqs (world_of fs_dirs))))
        (terraformDownloadURL (TrimPrefix ''1.7.0'' ''v'') (targetOS dl_latest) (targetArch dl_latest))
      = Response 404 0 [] False
   \<and> fst (Download env_404 dl_latest (world_of fs_dirs)) = Inl (ErrDownloadStatus 404)
   \<and> fs (snd (Download env_404 dl_latest (world_of fs_dirs))) = fs_dirs"
proof -
  have h1: "targetVer dl_170 \<noteq> []" and h4: "targetVer dl_latest = []"
    by (simp_all add: dl_170_def dl_latest_def)
  have h2: "httpGet env_404 k (terraformDownloadURL v os a) = Response 404 0 [] False" for k v os a
    by (simp add: env_404_def url_ne)
  have h3: "(404::int) \<noteq> StatusOK" by (simp add: StatusOK_def)
  have h5: "fst (GetLatestVersion env_404 (world_of fs_dirs)) = Inr ''1.7.0''"
    by (simp add: GetLatestVersion_def Get_def env_404_def env_ok_def StatusOK_def)
  note t1 = Download_bad_status_writes_nothing [of dl_170 env_404 "world_of fs_dirs" 404 0 "[]" False "''1.7.0''"]
  note t2 = Download_bad_status_writes_nothing [of dl_latest env_404 "world_of fs_dirs" 404 0 "[]" False "''1.7.0''"]
  from t1 h1 h2 h3 have a: "fst (Download env_404 dl_170 (world_of fs_dirs)) = Inl (ErrDownloadStatus 404)"
     and b: "fs (snd (Download env_404 dl_170 (world_of fs_dirs))) = fs (world_of fs_dirs)"
    by blast+
  from t2 h4 h5 h2 h3 have c: "fst (Download env_404 dl_latest (world_of fs_dirs)) = Inl (ErrDownloadStatus 404)"
     and d: "fs (snd (Download env_404 dl_latest (world_of fs_dirs))) = fs (world_of fs_dirs)"
    by blast+
  have e: "fs (world_of fs_dirs) = fs_dirs" by (simp add: world_of_def)
  show ?thesis using h1 h2 h3 h4 h5 a b c d unfolding e by blast
qed

subsection \<open>Extraction\<close>

lemmas run_eval = path_eval fs_eval Let_def say_def HasPrefix_def illegalPath_def entryPath_def
  OpenReader_def Unzip_def joinPath_def

lemma unzipEntries_append:
  "unzipEntries wd d (pre @ post) fs0 =
     (if fst (unzipEntries wd d pre fs0) = None
      then unzipEntries wd d post (snd (unzipEntries wd d pre fs0))
      else unzipEntries wd d pre fs0)"
proof (induction pre arbitrary: fs0)
  case Nil
  show ?case by simp
next
  case (Cons f pre)
  show ?case
    by (simp add: Cons.IH Let_def split: prod.splits option.splits sum.splits entryData.splits)
qed

lemma unzipEntries_illegal:
  "illegalPath d (entryPath d f) \<Longrightarrow>
     unzipEntries wd d (f # rest) fs0 = (Some (ErrIllegalPath (entryPath d f)), fs0)"
  by (simp add: entryPath_def)

text \<open>
  Claim C1. When the joined path of an entry fails the prefix test against the cleaned
  destination followed by a separator, the loop of \<open>Unzip\<close> stops at that entry with the
  illegal-path error and the file system it was given. For an archive with entries before
  and after it, the extraction fails, its file system is the one left by the entries before
  it (neither the offending entry nor a later one is written), and the error is the
  illegal-path error whenever the entries before it were extracted without error; the same
  for \<open>Unzip\<close> as a whole once the archive is open and the destination exists.
\<close>

theorem Unzip_rejects_illegal_path:
  "illegalPath destPath (entryPath destPath f) \<longrightarrow>
     unzipEntries wd destPath (f # rest) fs0
       = (Some (ErrIllegalPath (entryPath destPath f)), fs0)
     \<and> fst (unzipEntries wd destPath (pre @ f # rest) fs0) \<noteq> None
     \<and> snd (unzipEntries wd destPath (pre @ f # rest) fs0)
         = snd (unzipEntries wd destPath pre fs0)
     \<and> (fst (unzipEntries wd destPath pre fs0) = None \<longrightarrow>
          fst (unzipEntries wd destPath (pre @ f # rest) fs0)
            = Some (ErrIllegalPath (entryPath destPath f)))
     \<and> (OpenReader E fs0 zipPath = Some (pre @ f # rest)
          \<and> fst (MkdirAll (cwd E) fs0 destPath) = None
          \<and> fst (unzipEntries (cwd E) destPath pre (snd (MkdirAll (cwd E) fs0 destPath))) = None
        \<longrightarrow> Unzip E zipPath destPath fs0
            = (Some (ErrIllegalPath (entryPath destPath f)),
               snd (unzipEntries (cwd E) destPath pre (snd (MkdirAll (cwd E) fs0 destPath)))))"
proof
  assume bad: "illegalPath destPath (entryPath destPath f)"
  note step = unzipEntries_illegal [OF bad]
  have app: "unzipEntries w' destPath (pre @ f # rest) fs' =
     (if fst (unzipEntries w' destPath pre fs') = None
      then (Some (ErrIllegalPath (entryPath destPath f)), snd (unzipEntries w' destPath pre fs'))
      else unzipEntries w' destPath pre fs')" for w' fs'
    by (simp add: unzipEntries_append step del: unzipEntries.simps)
  have u: "Unzip E zipPath destPath fs0
            = (Some (ErrIllegalPath (entryPath destPath f)),
               snd (unzipEntries (cwd E) destPath pre (snd (MkdirAll (cwd E) fs0 destPath))))"
    if "OpenReader E fs0 zipPath = Some (pre @ f # rest)"
      "fst (MkdirAll (cwd E) fs0 destPath) = None"
      "fst (unzipEntries (cwd E) destPath pre (snd (MkdirAll (cwd E) fs0 destPath))) = None"
    using that by (simp add: Unzip_def app split_beta del: unzipEntries.simps)
  show "unzipEntries wd destPath (f # rest) fs0
       = (Some (ErrIllegalPath (entryPath destPath f)), fs0)
     \<and> fst (unzipEntries wd destPath (pre @ f # rest) fs0) \<noteq> None
     \<and> snd (unzipEntries wd destPath (pre @ f # rest) fs0)
         = snd (unzipEntries wd destPath pre fs0)
     \<and> (fst (unzipEntries wd destPath pre fs0) = None \<longrightarrow>
          fst (unzipEntries wd destPath (pre @ f # rest) fs0)
            = Some (ErrIllegalPath (entryPath destPath f)))
     \<and> (OpenReader E fs0 zipPath = Some (pre @ f # rest)
          \<and> fst (MkdirAll (cwd E) fs0 destPath) = None
          \<and> fst (unzipEntries (cwd E) destPath pre (snd (MkdirAll (cwd E) fs0 destPath))) = None
        \<longrightarrow> Unzip E zipPath destPath fs0
            = (Some (ErrIllegalPath (entryPath destPath f)),
               snd (unzipEntries (cwd E) destPath pre (snd (MkdirAll (cwd E) fs0 destPath)))))"
    using step u by (simp add: app del: unzipEntries.simps)
qed

theorem Unzip_rejects_illegal_path_witness:
  "illegalPath ''/tmp/x'' (entryPath ''/tmp/x'' (entry_evil))
   \<and> OpenReader env_evil fs_zip ''/home/u/tf.zip''
       = Some ([entry_a] @ entry_evil # [entry_b])
   \<and> fst (MkdirAll (cwd env_evil) fs_zip ''/tmp/x'') = None
   \<and> fst (unzipEntries (cwd env_evil) ''/tmp/x'' [entry_a]
            (snd (MkdirAll (cwd env_evil) fs_zip ''/tmp/x''))) = None
   \<and> fst (Unzip env_evil ''/home/u/tf.zip'' ''/tmp/x'' fs_zip) = Some (ErrIllegalPath ''/evil'')
   \<and> snd (Unzip env_evil ''/home/u/tf.zip'' ''/tmp/x'' fs_zip) [''tmp'', ''x'', ''a.txt'']
       = Some (File_node ''one'')
   \<and> snd (Unzip env_evil ''/home/u/tf.zip'' ''/tmp/x'' fs_zip) [''evil''] = None
   \<and> snd (Unzip env_evil ''/home/u/tf.zip'' ''/tmp/x'' fs_zip) [''tmp'', ''x'', ''b.txt''] = None"
proof -
  have e: "entryPath ''/tmp/x'' (entry_evil) = ''/evil''"
    by (simp add: entry_evil_def entryPath_def path_eval)
  have h1: "illegalPath ''/tmp/x'' (entryPath ''/tmp/x'' (entry_evil))"
    unfolding e by (simp add: illegalPath_def HasPrefix_def path_eval)
  have h2: "OpenReader env_evil fs_zip ''/home/u/tf.zip''
       = Some ([entry_a] @ entry_evil # [entry_b])"
    by (simp add: OpenReader_def evil_archive_def env_evil_def env_ok_def fs_zip_def fs_install_def fs_dirs_def
        path_eval fs_eval)
  have m: "MkdirAll (cwd env_evil) fs_zip ''/tmp/x'' = (None, fs_zip([''tmp'', ''x''] \<mapsto> Dir_node))"
    by (simp add: env_evil_def env_ok_def fs_zip_def fs_install_def fs_dirs_def path_eval fs_eval)
  have p: "unzipEntries (cwd env_evil) ''/tmp/x'' [entry_a] (fs_zip([''tmp'', ''x''] \<mapsto> Dir_node))
      = (None, fs_zip([''tmp'', ''x''] \<mapsto> Dir_node, [''tmp'', ''x'', ''a.txt''] \<mapsto> File_node ''one''))"
    by (simp add: env_evil_def env_ok_def entry_a_def fs_zip_def fs_install_def fs_dirs_def run_eval)
  have h3: "fst (MkdirAll (cwd env_evil) fs_zip ''/tmp/x'') = None" by (simp add: m)
  have h4: "fst (unzipEntries (cwd env_evil) ''/tmp/x'' [entry_a]
            (snd (MkdirAll (cwd env_evil) fs_zip ''/tmp/x''))) = None" by (simp add: m p del: unzipEntries.simps)
  from Unzip_rejects_illegal_path [of "''/tmp/x''" "entry_evil" "[]" "[entry_b]"
      fs_zip "[entry_a]" env_evil "''/home/u/tf.zip''"] h1 h2 h3 h4
  have "Unzip env_evil ''/home/u/tf.zip'' ''/tmp/x'' fs_zip
            = (Some (ErrIllegalPath (entryPath ''/tmp/x'' (entry_evil))),
               snd (unzipEntries (cwd env_evil) ''/tmp/x'' [entry_a] (snd (MkdirAll (cwd env_evil) fs_zip ''/tmp/x''))))"
    by blast
  then have u: "Unzip env_evil ''/home/u/tf.zip'' ''/tmp/x'' fs_zip
     = (Some (ErrIllegalPath ''/evil''),
        fs_zip([''tmp'', ''x''] \<mapsto> Dir_node, [''tmp'', ''x'', ''a.txt''] \<mapsto> File_node ''one''))"
    by (simp add: e m p del: unzipEntries.simps)
  have r: "fst (Unzip env_evil ''/home/u/tf.zip'' ''/tmp/x'' fs_zip) = Some (ErrIllegalPath ''/evil'')"
   "snd (Unzip env_evil ''/home/u/tf.zip'' ''/tmp/x'' fs_zip) [''tmp'', ''x'', ''a.txt'']
       = Some (File_node ''one'')"
   "snd (Unzip env_evil ''/home/u/tf.zip'' ''/tmp/x'' fs_zip) [''evil''] = None"
   "snd (Unzip env_evil ''/home/u/tf.zip'' ''/tmp/x'' fs_zip) [''tmp'', ''x'', ''b.txt''] = None"
    unfolding u by (simp_all add: fs_zip_def fs_install_def fs_dirs_def)
  show ?thesis using h1 h2 h3 h4 r by blast
qed

subsection \<open>Installation\<close>

text \<open>
  When \<open>os.Stat\<close> reports that the install path does not exist (\<open>ENOENT\<close>),
  \<open>installTerraform\<close> returns the install-path error with the state as it was.
\<close>

lemma installTerraform_ENOENT:
  "Stat (cwd E) (fs w) dest = Inl ENOENT \<Longrightarrow>
     installTerraform E zipFile dest w = (Some (ErrInstallPathMissing dest), w)"
  by (simp add: installTerraform_def)

text \<open>
  Claim C10 at an install path that does not exist because a regular file is on the way to
  it. The archive \<open>tf.zip\<close> is in the working directory \<open>/home/u\<close> and holds the binary; the
  install path is \<open>/home/u/.tfdown.conf/bin\<close>, where \<open>/home/u/.tfdown.conf\<close> is a regular
  file, so nothing exists at the install path. \<open>os.Stat\<close> fails with \<open>ENOTDIR\<close>, which
  \<open>os.IsNotExist\<close> does not accept: the check of the install path lets the call through,
  \<open>installTerraform\<close> prints that it extracts, creates the temporary directory, extracts the
  archive into it, prints that it installs, and returns an error only when the copy of the
  binary cannot create its destination. The install path is still absent afterwards.
\<close>

theorem installTerraform_extracts_without_install_path:
  "fs (world_of fs_zip) [''home'', ''u'', ''.tfdown.conf''] = Some (File_node conf_170_install)
   \<and> fs (world_of fs_zip) [''home'', ''u'', ''.tfdown.conf'', ''bin''] = None
   \<and> Stat (cwd env_ok) (fs (world_of fs_zip)) ''/home/u/.tfdown.conf/bin'' = Inl ENOTDIR
   \<and> fst (installTerraform env_ok ''tf.zip'' ''/home/u/.tfdown.conf/bin'' (world_of fs_zip))
       = Some (ErrCopy ENOTDIR)
   \<and> out (snd (installTerraform env_ok ''tf.zip'' ''/home/u/.tfdown.conf/bin'' (world_of fs_zip)))
       = [PrintExtracting ''tf.zip'', PrintInstalling ''/home/u/.tfdown.conf/bin/terraform'']
   \<and> MkdirTemp (cwd env_ok) (fs (world_of fs_zip)) (TempDir env_ok) (tempNames env_ok)
       = Inr (''/tmp/tfdown-1234'', fs_zip([''tmp'', ''tfdown-1234''] \<mapsto> Dir_node))
   \<and> fst (Unzip env_ok ''tf.zip'' ''/tmp/tfdown-1234''
             (fs_zip([''tmp'', ''tfdown-1234''] \<mapsto> Dir_node))) = None
   \<and> snd (Unzip env_ok ''tf.zip'' ''/tmp/tfdown-1234''
             (fs_zip([''tmp'', ''tfdown-1234''] \<mapsto> Dir_node)))
         [''tmp'', ''tfdown-1234'', ''terraform''] = Some (File_node ''ELF'')
   \<and> fs (snd (installTerraform env_ok ''tf.zip'' ''/home/u/.tfdown.conf/bin'' (world_of fs_zip)))
        [''home'', ''u'', ''.tfdown.conf'', ''bin''] = None"
proof -
  have 1: "fs (world_of fs_zip) [''home'', ''u'', ''.tfdown.conf''] = Some (File_node conf_170_install)"
    and 2: "fs (world_of fs_zip) [''home'', ''u'', ''.tfdown.conf'', ''bin''] = None"
    by (simp_all add: world_of_def fs_zip_def fs_install_def fs_dirs_def)
  have 3: "Stat (cwd env_ok) (fs (world_of fs_zip)) ''/home/u/.tfdown.conf/bin'' = Inl ENOTDIR"
    by (simp add: env_ok_def world_of_def fs_zip_def fs_install_def fs_dirs_def run_eval)
  have 4: "fst (installTerraform env_ok ''tf.zip'' ''/home/u/.tfdown.conf/bin'' (world_of fs_zip))
       = Some (ErrCopy ENOTDIR)"
    by (simp add: installTerraform_unfold installFrom_def copyFile_def env_ok_def world_of_def
      fs_zip_def fs_install_def fs_dirs_def run_eval terraform_entry_def)
  have 5: "out (snd (installTerraform env_ok ''tf.zip'' ''/home/u/.tfdown.conf/bin'' (world_of fs_zip)))
       = [PrintExtracting ''tf.zip'', PrintInstalling ''/home/u/.tfdown.conf/bin/terraform'']"
    by (simp add: installTerraform_unfold installFrom_def copyFile_def env_ok_def world_of_def
      fs_zip_def fs_install_def fs_dirs_def run_eval terraform_entry_def)
  have 6: "MkdirTemp (cwd env_ok) (fs (world_of fs_zip)) (TempDir env_ok) (tempNames env_ok)
       = Inr (''/tmp/tfdown-1234'', fs_zip([''tmp'', ''tfdown-1234''] \<mapsto> Dir_node))"
    by (simp add: env_ok_def world_of_def fs_zip_def fs_install_def fs_dirs_def run_eval)
  have 7: "fst (Unzip env_ok ''tf.zip'' ''/tmp/tfdown-1234''
             (fs_zip([''tmp'', ''tfdown-1234''] \<mapsto> Dir_node))) = None"
    by (simp add: env_ok_def fs_zip_def fs_install_def fs_dirs_def run_eval terraform_entry_def)
  have 8: "snd (Unzip env_ok ''tf.zip'' ''/tmp/tfdown-1234''
             (fs_zip([''tmp'', ''tfdown-1234''] \<mapsto> Dir_node)))
         [''tmp'', ''tfdown-1234'', ''terraform''] = Some (File_node ''ELF'')"
    by (simp add: env_ok_def fs_zip_def fs_install_def fs_dirs_def run_eval terraform_entry_def)
  have 9: "fs (snd (installTerraform env_ok ''tf.zip'' ''/home/u/.tfdown.conf/bin'' (world_of fs_zip)))
        [''home'', ''u'', ''.tfdown.conf'', ''bin''] = None"
    by (simp add: installTerraform_unfold installFrom_def copyFile_def env_ok_def world_of_def
      fs_zip_def fs_install_def fs_dirs_def run_eval terraform_entry_def RemoveAll_def)
  from 1 2 3 4 5 6 7 8 9 show ?thesis by (intro conjI)
qed

subsection \<open>White space and the scanner\<close>

lemma unicodeSpaces_all_bytes:
  "r \<in> set unicodeSpaces \<Longrightarrow> b \<in> set r \<Longrightarrow> (128::nat) \<le> of_char b"
  unfolding unicodeSpaces_def by auto

lemma find_Some_D: "List.find P xs = Some x \<Longrightarrow> x \<in> set xs \<and> P x"
  by (induction xs) (auto split: if_splits)

lemma trailWidth_zero_iff:
  "trailWidth s = 0 \<longleftrightarrow>
     s = [] \<or> (\<not> asciiSpace (last s) \<and> (\<forall>r \<in> set unicodeSpaces. \<not> suffix r s))"
proof (cases "s = [] \<or> asciiSpace (last s)")
  case True
  then show ?thesis by (auto simp: trailWidth_def)
next
  case False
  show ?thesis
  proof (cases "List.find (\<lambda>r. suffix r s) unicodeSpaces")
    case None
    then have "\<forall>r \<in> set unicodeSpaces. \<not> suffix r s" by (simp add: find_None_conv)
    with None False show ?thesis by (simp add: trailWidth_def)
  next
    case (Some r)
    from find_Some_D [OF Some] have "r \<in> set unicodeSpaces" "suffix r s" by auto
    moreover from this unicodeSpaces_bytes have "r \<noteq> []" by blast
    ultimately show ?thesis using False Some by (auto simp: trailWidth_def)
  qed
qed

lemma leadWidth_zero_iff:
  "leadWidth s = 0 \<longleftrightarrow>
     s = [] \<or> (\<not> asciiSpace (hd s) \<and> (\<forall>r \<in> set unicodeSpaces. \<not> prefix r s))"
proof (cases s)
  case Nil
  then show ?thesis by (simp add: leadWidth_def)
next
  case (Cons c cs)
  show ?thesis
  proof (cases "asciiSpace c")
    case True
    with Cons show ?thesis by (simp add: leadWidth_def)
  next
    case False
    show ?thesis
    proof (cases "List.find (\<lambda>r. prefix r s) unicodeSpaces")
      case None
      then have "\<forall>r \<in> set unicodeSpaces. \<not> prefix r s" by (simp add: find_None_conv)
      with None False Cons show ?thesis by (simp add: leadWidth_def)
    next
      case (Some r)
      from find_Some_D [OF Some] have "r \<in> set unicodeSpaces" "prefix r s" by auto
      moreover from this unicodeSpaces_bytes have "r \<noteq> []" by blast
      ultimately show ?thesis using False Some Cons by (auto simp: leadWidth_def)
    qed
  qed
qed

lemma trailWidth_le: "trailWidth s \<le> length s"
proof (cases "s = [] \<or> asciiSpace (last s)")
  case True
  then show ?thesis by (cases s) (auto simp: trailWidth_def)
next
  case False
  show ?thesis
  proof (cases "List.find (\<lambda>r. suffix r s) unicodeSpaces")
    case None
    with False show ?thesis by (simp add: trailWidth_def)
  next
    case (Some r)
    from find_Some_D [OF Some] have "suffix r s" by auto
    then have "length r \<le> length s" by (rule suffix_length_le)
    with False Some show ?thesis by (simp add: trailWidth_def)
  qed
qed

lemma length_trimLeft: "length (trimLeft s) \<le> length s"
proof (induction s rule: trimLeft.induct)
  case (1 s)
  show ?case
  proof (cases "leadWidth s = 0")
    case True
    then show ?thesis by (simp add: trimLeft_stop)
  next
    case False
    from 1 [OF False] have "length (trimLeft (drop (leadWidth s) s)) \<le> length s" by simp
    with False show ?thesis by (subst trimLeft.simps) simp
  qed
qed

lemma length_trimRight: "length (trimRight s) \<le> length s"
proof (induction s rule: trimRight.induct)
  case (1 s)
  show ?case
  proof (cases "trailWidth s = 0")
    case True
    then show ?thesis by (simp add: trimRight_stop)
  next
    case False
    from 1 [OF False] have "length (trimRight (take (length s - trailWidth s) s)) \<le> length s" by simp
    with False show ?thesis by (subst trimRight.simps) simp
  qed
qed

lemma trimLeft_shorter: "leadWidth s \<noteq> 0 \<Longrightarrow> length (trimLeft s) < length s"
proof -
  assume a: "leadWidth s \<noteq> 0"
  then have ne: "s \<noteq> []" by (auto simp: leadWidth_def)
  have "length (trimLeft (drop (leadWidth s) s)) \<le> length (drop (leadWidth s) s)"
    by (rule length_trimLeft)
  also have "\<dots> < length s" using a ne by simp
  finally show ?thesis using a by (subst trimLeft.simps) simp
qed

lemma trimRight_shorter: "trailWidth s \<noteq> 0 \<Longrightarrow> length (trimRight s) < length s"
proof -
  assume a: "trailWidth s \<noteq> 0"
  then have ne: "s \<noteq> []" by (auto simp: trailWidth_def)
  have "length (trimRight (take (length s - trailWidth s) s)) \<le> length (take (length s - trailWidth s) s)"
    by (rule length_trimRight)
  also have "\<dots> < length s" using a ne by simp
  finally show ?thesis using a by (subst trimRight.simps) simp
qed

lemma TrimSpace_fixed_iff:
  "TrimSpace s = s \<longleftrightarrow> leadWidth s = 0 \<and> trailWidth s = 0"
proof
  assume f: "TrimSpace s = s"
  have l: "leadWidth s = 0"
  proof (rule ccontr)
    assume "leadWidth s \<noteq> 0"
    then have "length (trimLeft s) < length s" by (rule trimLeft_shorter)
    moreover have "length (trimRight (trimLeft s)) \<le> length (trimLeft s)" by (rule length_trimRight)
    ultimately show False using f by (simp add: TrimSpace_def)
  qed
  then have "trimRight s = s" using f by (simp add: TrimSpace_def trimLeft_stop)
  then have "trailWidth s = 0" using trimRight_shorter [of s] by fastforce
  with l show "leadWidth s = 0 \<and> trailWidth s = 0" by simp
next
  assume "leadWidth s = 0 \<and> trailWidth s = 0"
  then show "TrimSpace s = s" by (simp add: TrimSpace_def trimLeft_stop trimRight_stop)
qed

lemma trailWidth_append_ascii:
  assumes v: "trailWidth v = 0" and k: "k \<noteq> []" "\<not> asciiSpace (last k)"
    "(of_char (last k) :: nat) < 128"
  shows "trailWidth (k @ v) = 0"
proof (cases "v = []")
  case True
  with k show ?thesis by (simp add: trailWidth_ascii)
next
  case False
  with v have nv: "\<not> asciiSpace (last v)" and ns: "\<forall>r \<in> set unicodeSpaces. \<not> suffix r v"
    by (auto simp: trailWidth_zero_iff)
  have "\<not> suffix r (k @ v)" if r: "r \<in> set unicodeSpaces" for r
  proof
    assume "suffix r (k @ v)"
    then have "suffix r v \<or> (\<exists>r'. suffix r' k \<and> r = r' @ v)"
      by (auto simp add: suffix_append)
    then show False
    proof
      assume "suffix r v"
      with ns r show False by blast
    next
      assume "\<exists>r'. suffix r' k \<and> r = r' @ v"
      then obtain r' where 2: "suffix r' k" "r = r' @ v" by blast
      show False
      proof (cases "r' = []")
        case True
        with 2 have "suffix r v" by simp
        with ns r show False by blast
      next
        case False
        with 2 have "last r' = last k" by (auto simp: suffix_def)
        moreover have "last r' \<in> set r" using 2 False by simp
        ultimately have "(128::nat) \<le> of_char (last k)"
          using unicodeSpaces_all_bytes [OF r] by metis
        with k show False by simp
      qed
    qed
  qed
  with False nv show ?thesis by (simp add: trailWidth_zero_iff)
qed

lemma TrimSpace_key_value:
  assumes "TrimSpace v = v" "\<not> asciiSpace c" "(of_char c :: nat) < 128"
    "\<not> asciiSpace (last (c # k))" "(of_char (last (c # k)) :: nat) < 128"
  shows "TrimSpace ((c # k) @ v) = (c # k) @ v"
proof -
  from assms(1) have "trailWidth v = 0" by (simp add: TrimSpace_fixed_iff)
  then have "trailWidth ((c # k) @ v) = 0"
    using assms(4,5) by (intro trailWidth_append_ascii) simp_all
  moreover have "leadWidth ((c # k) @ v) = 0"
    using assms(2,3) by (simp add: leadWidth_ascii)
  ultimately show ?thesis by (simp add: TrimSpace_fixed_iff)
qed

lemma TrimSpace_no_CR:
  assumes "TrimSpace v = v" "v \<noteq> []" shows "last v \<noteq> CHR 0x0D"
proof -
  from assms have "\<not> asciiSpace (last v)"
    by (simp add: TrimSpace_fixed_iff trailWidth_zero_iff)
  then show ?thesis by (auto simp: asciiSpace_def)
qed



lemma scanLines_line:
  "CHR 0x0A \<notin> set l \<Longrightarrow> length (cur @ l) < MaxScanTokenSize \<Longrightarrow>
     scanLines cur (l @ CHR 0x0A # rest)
       = (dropCR (cur @ l) # fst (scanLines [] rest), snd (scanLines [] rest))"
proof (induction l arbitrary: cur)
  case Nil
  then show ?case by (simp add: split_beta)
next
  case (Cons a l)
  from Cons.prems have "scanLines (cur @ [a]) (l @ CHR 0x0A # rest)
       = (dropCR ((cur @ [a]) @ l) # fst (scanLines [] rest), snd (scanLines [] rest))"
    by (intro Cons.IH) simp_all
  with Cons.prems show ?case by auto
qed

lemma scanLines_too_long:
  "CHR 0x0A \<notin> set l \<Longrightarrow> MaxScanTokenSize \<le> length (cur @ l) \<Longrightarrow>
     scanLines cur (l @ CHR 0x0A # rest) = ([], True)"
proof (induction l arbitrary: cur)
  case Nil
  then show ?case by simp
next
  case (Cons a l)
  from Cons.prems have "scanLines (cur @ [a]) (l @ CHR 0x0A # rest) = ([], True)"
    by (intro Cons.IH) simp_all
  with Cons.prems show ?case by auto
qed

subsection \<open>Loading the persisted state\<close>

lemma Load_absent: "Stat wd fs0 (configPath c) = Inl ENOENT \<Longrightarrow> Load wd fs0 c = (c, None)"
  by (simp add: Load_def)

lemma Load_file:
  "Stat wd fs0 (configPath c) = Inr (File_node d) \<Longrightarrow>
     Load wd fs0 c = (foldl loadLine c (fst (scanLines [] d)),
                      if snd (scanLines [] d) then Some ErrReadConfig else None)"
  by (simp add: Load_def split_beta)

lemma splitOn_not_Nil: "splitOn sep s \<noteq> []"
  by (induction s) (auto split: list.splits)

text \<open>
  The scanner and the split of the content at line feeds: when every piece is short, the
  scanner returns the lines of the file, each without a carriage return at its end, and no
  error. \<open>cur\<close> is the part of the current line already read.
\<close>

lemma scanLines_pieces:
  "\<forall>l \<in> set ((cur @ hd (splitOn (CHR 0x0A) d)) # tl (splitOn (CHR 0x0A) d)). shortLine l \<Longrightarrow>
     scanLines cur d =
       (map dropCR
          (if last ((cur @ hd (splitOn (CHR 0x0A) d)) # tl (splitOn (CHR 0x0A) d)) = []
           then butlast ((cur @ hd (splitOn (CHR 0x0A) d)) # tl (splitOn (CHR 0x0A) d))
           else (cur @ hd (splitOn (CHR 0x0A) d)) # tl (splitOn (CHR 0x0A) d)), False)"
proof (induction d arbitrary: cur)
  case Nil
  then show ?case by (simp add: shortLine_def)
next
  case (Cons c cs)
  obtain x xs where s: "splitOn (CHR 0x0A) cs = x # xs"
    using splitOn_not_Nil [of "CHR 0x0A" cs] by (cases "splitOn (CHR 0x0A) cs") simp_all
  show ?case
  proof (cases "c = CHR 0x0A")
    case True
    have "\<forall>l \<in> set (([] @ hd (splitOn (CHR 0x0A) cs)) # tl (splitOn (CHR 0x0A) cs)). shortLine l"
      using Cons.prems True s by simp
    from Cons.IH [OF this] have ih: "scanLines [] cs =
       (map dropCR (if last (x # xs) = [] then butlast (x # xs) else x # xs), False)"
      using s by simp
    have sc: "shortLine cur" using Cons.prems True by simp
    show ?thesis
      using True s ih sc by (simp add: shortLine_def)
  next
    case False
    have "\<forall>l \<in> set (((cur @ [c]) @ hd (splitOn (CHR 0x0A) cs)) # tl (splitOn (CHR 0x0A) cs)). shortLine l"
      using Cons.prems False s by simp
    from Cons.IH [OF this] show ?thesis using False s by simp
  qed
qed

lemma scanLines_fileLines:
  assumes "\<forall>l \<in> set (splitOn (CHR 0x0A) d). shortLine l"
  shows "scanLines [] d = (map dropCR (fileLines d), False)"
proof -
  have e: "([] @ hd (splitOn (CHR 0x0A) d)) # tl (splitOn (CHR 0x0A) d) = splitOn (CHR 0x0A) d"
    by (simp add: splitOn_not_Nil)
  have "\<forall>l \<in> set (([] @ hd (splitOn (CHR 0x0A) d)) # tl (splitOn (CHR 0x0A) d)). shortLine l"
    unfolding e using assms .
  from scanLines_pieces [OF this] show ?thesis
    unfolding e by (simp add: fileLines_def Let_def)
qed

lemma loadLine_skip: "\<not> knownKeyLine raw \<Longrightarrow> loadLine c raw = c"
  by (auto simp: knownKeyLine_def loadLine_def Let_def split: option.splits)

lemma foldl_loadLine_filter:
  "foldl loadLine c ls = foldl loadLine c (filter knownKeyLine ls)"
  by (induction ls arbitrary: c) (simp_all add: loadLine_skip)

text \<open>
  Claim C8, as amended. \<open>Load\<close> of a configuration file for which \<open>os.Stat\<close> reports that
  it does not exist returns the object as it was (the zero values after \<open>NewConfig\<close>) and no
  error. For every regular file whose lines are all shorter than the 65536 bytes of the
  scanner's buffer, \<open>Load\<close> returns no error, and the object it returns is the one obtained
  from the lines with a known key alone, in their order: every other line is skipped by
  itself, and no line stops the lines after it. The lines that are skipped are the blank
  lines and comments, the lines without \<open>=\<close>, and the lines whose key is none of \<open>version\<close>,
  \<open>install\<close>, \<open>install_path\<close>. A line with key \<open>install\<close> and a value that \<open>ParseBool\<close>
  rejects sets the install flag to false.
\<close>

theorem Load_is_tolerant:
  "(Stat wd fs0 (configPath c) = Inl ENOENT \<longrightarrow> Load wd fs0 c = (c, None))
   \<and> (Stat wd fs0 (configPath c) = Inr (File_node d)
        \<and> (\<forall>l \<in> set (splitOn (CHR 0x0A) d). shortLine l)
      \<longrightarrow> Load wd fs0 c
            = (foldl loadLine c (filter knownKeyLine (map dropCR (fileLines d))), None))
   \<and> (TrimSpace raw0 = [] \<or> HasPrefix (TrimSpace raw0) ''#'' \<longrightarrow> \<not> knownKeyLine raw0)
   \<and> (SplitN2 (TrimSpace raw1) = None \<longrightarrow> \<not> knownKeyLine raw1)
   \<and> (SplitN2 (TrimSpace raw2) = Some (k2, v2)
        \<and> TrimSpace k2 \<noteq> ''version'' \<and> TrimSpace k2 \<noteq> ''install''
        \<and> TrimSpace k2 \<noteq> ''install_path''
      \<longrightarrow> \<not> knownKeyLine raw2)
   \<and> (knownKeyLine raw3 \<and> SplitN2 (TrimSpace raw3) = Some (k3, v3)
        \<and> TrimSpace k3 = ''install'' \<and> ParseBool (TrimSpace v3) = None
      \<longrightarrow> loadLine c raw3 = c\<lparr>Install := False\<rparr>)"
proof -
  have 2: "Load wd fs0 c
            = (foldl loadLine c (filter knownKeyLine (map dropCR (fileLines d))), None)"
    if s: "Stat wd fs0 (configPath c) = Inr (File_node d)"
      and l: "\<forall>l \<in> set (splitOn (CHR 0x0A) d). shortLine l"
  proof -
    have "Load wd fs0 c = (foldl loadLine c (fst (scanLines [] d)),
                      if snd (scanLines [] d) then Some ErrReadConfig else None)"
      using s by (rule Load_file)
    also have "\<dots> = (foldl loadLine c (map dropCR (fileLines d)), None)"
      by (simp add: scanLines_fileLines [OF l])
    also have "foldl loadLine c (map dropCR (fileLines d))
        = foldl loadLine c (filter knownKeyLine (map dropCR (fileLines d)))"
      by (rule foldl_loadLine_filter)
    finally show ?thesis .
  qed
  have 3: "\<not> knownKeyLine raw0" if "TrimSpace raw0 = [] \<or> HasPrefix (TrimSpace raw0) ''#''"
    using that by (auto simp: knownKeyLine_def Let_def)
  have 4: "\<not> knownKeyLine raw1" if "SplitN2 (TrimSpace raw1) = None"
    using that by (simp add: knownKeyLine_def Let_def)
  have 5: "\<not> knownKeyLine raw2" if "SplitN2 (TrimSpace raw2) = Some (k2, v2)"
        "TrimSpace k2 \<noteq> ''version''" "TrimSpace k2 \<noteq> ''install''"
        "TrimSpace k2 \<noteq> ''install_path''"
    using that by (simp add: knownKeyLine_def Let_def)
  have 6: "loadLine c raw3 = c\<lparr>Install := False\<rparr>"
    if "knownKeyLine raw3" "SplitN2 (TrimSpace raw3) = Some (k3, v3)"
        "TrimSpace k3 = ''install''" "ParseBool (TrimSpace v3) = None"
    using that by (simp add: knownKeyLine_def loadLine_def Let_def)
  show ?thesis using Load_absent 2 3 4 5 6 by blast
qed

theorem Load_is_tolerant_witness:
  "Stat [] fs_dirs (configPath (NewConfig ''/home/u'')) = Inl ENOENT
   \<and> Load [] fs_dirs (NewConfig ''/home/u'') = (NewConfig ''/home/u'', None)
   \<and> Version (NewConfig ''/home/u'') = [] \<and> \<not> Install (NewConfig ''/home/u'')
   \<and> InstallPath (NewConfig ''/home/u'') = []
   \<and> Stat [] fs_odd (configPath (NewConfig ''/home/u'')) = Inr (File_node conf_odd)
   \<and> list_all shortLine (splitOn (CHR 0x0A) conf_odd)
   \<and> Load [] fs_odd (NewConfig ''/home/u'')
       = ((NewConfig ''/home/u'')\<lparr>Version := ''1.7.0''\<rparr>, None)
   \<and> HasPrefix (TrimSpace ''# note'') ''#'' \<and> \<not> knownKeyLine ''# note''
   \<and> SplitN2 (TrimSpace ''garbage'') = None \<and> \<not> knownKeyLine ''garbage''
   \<and> SplitN2 (TrimSpace ''color = blue'') = Some (''color '', '' blue'')
   \<and> TrimSpace ''color '' = ''color'' \<and> \<not> knownKeyLine ''color = blue''
   \<and> knownKeyLine ''install=maybe''
   \<and> SplitN2 (TrimSpace ''install=maybe'') = Some (''install'', ''maybe'')
   \<and> ParseBool (TrimSpace ''maybe'') = None
   \<and> loadLine ((NewConfig ''/home/u'')\<lparr>Install := True\<rparr>) ''install=maybe''
       = (NewConfig ''/home/u'')\<lparr>Install := True, Install := False\<rparr>"
proof -
  let ?c = "NewConfig ''/home/u''"
  have p: "configPath ?c = ''/home/u/.tfdown.conf''"
    by (simp add: NewConfig_def path_eval)
  have h1: "Stat [] fs_dirs (configPath ?c) = Inl ENOENT"
    unfolding p by (simp add: fs_dirs_def path_eval fs_eval)
  have h2: "Stat [] fs_odd (configPath ?c) = Inr (File_node conf_odd)"
    unfolding p by (simp add: fs_odd_def fs_dirs_def path_eval fs_eval)
  have sp: "splitOn (CHR 0x0A) conf_odd
     = [''install=true'', ''garbage'', ''color = blue'', ''install=maybe'', ''version=1.7.0'', []]"
    by (simp add: conf_odd_def)
  have h3: "list_all shortLine (splitOn (CHR 0x0A) conf_odd)"
    unfolding sp by (simp add: shortLine_def MaxScanTokenSize_def)
  have fl: "map dropCR (fileLines conf_odd)
     = [''install=true'', ''garbage'', ''color = blue'', ''install=maybe'', ''version=1.7.0'']"
    by (simp add: fileLines_def sp dropCR_def)
  have t0: "TrimSpace ''# note'' = ''# note''"
    and t1: "TrimSpace ''garbage'' = ''garbage''"
    and t2: "TrimSpace ''color = blue'' = ''color = blue''"
    and t3: "TrimSpace ''install=maybe'' = ''install=maybe''"
    and t4: "TrimSpace ''color '' = ''color''"
    and t5: "TrimSpace ''maybe'' = ''maybe''" and t6: "TrimSpace ''install'' = ''install''"
    and t7: "TrimSpace ''install=true'' = ''install=true''"
    and t8: "TrimSpace ''version=1.7.0'' = ''version=1.7.0''"
    and t9: "TrimSpace ''version'' = ''version''"
    by (simp_all add: trim_eval)
  have g0: "HasPrefix (TrimSpace ''# note'') ''#''" unfolding t0 by (simp add: HasPrefix_def)
  have g1: "SplitN2 (TrimSpace ''garbage'') = None" unfolding t1 by simp
  have g2: "SplitN2 (TrimSpace ''color = blue'') = Some (''color '', '' blue'')" unfolding t2 by simp
  have g2': "TrimSpace ''color '' \<noteq> ''version''" "TrimSpace ''color '' \<noteq> ''install''"
     "TrimSpace ''color '' \<noteq> ''install_path''" unfolding t4 by simp_all
  have g3: "SplitN2 (TrimSpace ''install=maybe'') = Some (''install'', ''maybe'')" unfolding t3 by simp
  have g4: "ParseBool (TrimSpace ''maybe'') = None" unfolding t5 by (simp add: ParseBool_def)
  have k3: "knownKeyLine ''install=maybe''"
    by (simp add: knownKeyLine_def Let_def t3 t6 HasPrefix_def)
  have k1: "knownKeyLine ''install=true''"
    by (simp add: knownKeyLine_def Let_def t7 t6 HasPrefix_def)
  have k5: "knownKeyLine ''version=1.7.0''"
    by (simp add: knownKeyLine_def Let_def t8 t9 HasPrefix_def)
  note A = Load_is_tolerant [of "[]" fs_dirs ?c conf_odd "''# note''" "''garbage''"
      "''color = blue''" "''color ''" "'' blue''" "''install=maybe''" "''install''" "''maybe''"]
  note B = Load_is_tolerant [of "[]" fs_odd ?c conf_odd "''# note''" "''garbage''"
      "''color = blue''" "''color ''" "'' blue''" "''install=maybe''" "''install''" "''maybe''"]
  note C = Load_is_tolerant [of "[]" fs_odd "?c\<lparr>Install := True\<rparr>" conf_odd "''# note''" "''garbage''"
      "''color = blue''" "''color ''" "'' blue''" "''install=maybe''" "''install''" "''maybe''"]
  from A h1 have r1: "Load [] fs_dirs ?c = (?c, None)" by (elim conjE) simp
  from A g0 have r0: "\<not> knownKeyLine ''# note''" by (elim conjE) simp
  from A g1 have r3: "\<not> knownKeyLine ''garbage''" by (elim conjE) simp
  from A g2 g2' have r4: "\<not> knownKeyLine ''color = blue''" by (elim conjE) simp
  from C k3 g3 g4 t6 have r5: "loadLine (?c\<lparr>Install := True\<rparr>) ''install=maybe''
       = ?c\<lparr>Install := True, Install := False\<rparr>" by (elim conjE) simp
  from B h2 h3 have "Load [] fs_odd ?c
      = (foldl loadLine ?c (filter knownKeyLine (map dropCR (fileLines conf_odd))), None)"
    by (elim conjE) (simp add: list_all_iff)
  then have r2: "Load [] fs_odd ?c = (?c\<lparr>Version := ''1.7.0''\<rparr>, None)"
    unfolding fl
    by (simp add: k1 r3 r4 k3 k5 loadLine_def t7 t3 t8 t6 t9 t5 HasPrefix_def ParseBool_def
        Let_def trim_eval NewConfig_def)
  have z: "Version ?c = []" "\<not> Install ?c" "InstallPath ?c = []" by (simp_all add: NewConfig_def)
  from h1 r1 z h2 h3 r2 g0 r0 g1 r3 g2 t4 r4 k3 g3 g4 r5 show ?thesis by (intro conjI)
qed

text \<open>
  Claim C8 as stated, for every file content, fails. A first line of 65536 bytes without
  \<open>=\<close> is not skipped: the scanner stops there, \<open>Load\<close> returns the error for reading the
  file, and the line \<open>version=1.7.0\<close> after it is never read. And a configuration file that
  is absent because its directory is a regular file makes \<open>os.Stat\<close> fail with \<open>ENOTDIR\<close>,
  for which \<open>Load\<close> returns the error for opening the file.
\<close>

theorem Load_is_tolerant_counterexample:
  "CHR ''='' \<notin> set (replicate 65536 (CHR ''x''))
   \<and> Stat [] fs_long_line (configPath (NewConfig ''/home/u'')) = Inr (File_node conf_long_line)
   \<and> Load [] fs_long_line (NewConfig ''/home/u'') = (NewConfig ''/home/u'', Some ErrReadConfig)
   \<and> fs_blocked [''home'', ''u'', ''.tfdown.conf''] = None
   \<and> Load [] fs_blocked (NewConfig ''/home/u'')
       = (NewConfig ''/home/u'', Some (ErrOpenConfig ENOTDIR))"
proof -
  have p: "configPath (NewConfig ''/home/u'') = ''/home/u/.tfdown.conf''"
    by (simp add: NewConfig_def path_eval)
  have 1: "CHR ''='' \<notin> set (replicate 65536 (CHR ''x''))" by simp
  have 2: "Stat [] fs_long_line (configPath (NewConfig ''/home/u'')) = Inr (File_node conf_long_line)"
    unfolding p by (simp add: fs_long_line_def fs_dirs_def path_eval fs_eval)
  have "scanLines [] (replicate 65536 (CHR ''x'') @ CHR 0x0A # (''version=1.7.0'' @ [CHR 0x0A]))
      = ([], True)"
    by (rule scanLines_too_long) (simp_all add: MaxScanTokenSize_def)
  then have s: "scanLines [] conf_long_line = ([], True)" by (simp add: conf_long_line_def)
  have 3: "Load [] fs_long_line (NewConfig ''/home/u'') = (NewConfig ''/home/u'', Some ErrReadConfig)"
    using Load_file [OF 2] by (simp add: s)
  have 4: "fs_blocked [''home'', ''u'', ''.tfdown.conf''] = None" by (simp add: fs_blocked_def)
  have "Stat [] fs_blocked ''/home/u/.tfdown.conf'' = Inl ENOTDIR"
    by (simp add: fs_blocked_def path_eval fs_eval)
  then have 5: "Load [] fs_blocked (NewConfig ''/home/u'')
       = (NewConfig ''/home/u'', Some (ErrOpenConfig ENOTDIR))"
    by (simp add: Load_def p)
  from 1 2 3 4 5 show ?thesis by (intro conjI)
qed

subsection \<open>Saving and loading again\<close>

lemma SplitN2_key:
  "CHR ''='' \<notin> set k \<Longrightarrow> SplitN2 (k @ CHR ''='' # v) = Some (k, v)"
  by (induction k) auto

lemma loadLine_version:
  assumes "TrimSpace v = v"
  shows "loadLine c (''version='' @ v) = c\<lparr>Version := v\<rparr>"
proof -
  have t: "TrimSpace (''version='' @ v) = ''version='' @ v"
    using assms by (intro TrimSpace_key_value) (simp_all add: asciiSpace_def)
  have s: "SplitN2 (''version='' @ v) = Some (''version'', v)"
    using SplitN2_key [of "''version''" v] by simp
  have k: "TrimSpace ''version'' = ''version''" by (simp add: trim_eval)
  show ?thesis
    unfolding loadLine_def t Let_def s by (simp add: k assms HasPrefix_def)
qed

lemma loadLine_install_path:
  assumes "TrimSpace v = v"
  shows "loadLine c (''install_path='' @ v) = c\<lparr>InstallPath := v\<rparr>"
proof -
  have t: "TrimSpace (''install_path='' @ v) = ''install_path='' @ v"
    using assms by (intro TrimSpace_key_value) (simp_all add: asciiSpace_def)
  have s: "SplitN2 (''install_path='' @ v) = Some (''install_path'', v)"
    using SplitN2_key [of "''install_path''" v] by simp
  have k: "TrimSpace ''install_path'' = ''install_path''" by (simp add: trim_eval)
  show ?thesis
    unfolding loadLine_def t Let_def s by (simp add: k assms HasPrefix_def)
qed

lemma loadLine_install: "loadLine c (''install='' @ fmtBool b) = c\<lparr>Install := b\<rparr>"
  by (cases b) (simp_all add: fmtBool_def loadLine_def trim_eval HasPrefix_def ParseBool_def)

lemma loadLine_header1: "loadLine c ''# tfdown configuration file'' = c"
  by (simp add: loadLine_def trim_eval HasPrefix_def)

lemma loadLine_header2: "loadLine c (''# Last updated: '' @ getCurrentDate) = c"
  by (simp add: getCurrentDate_def loadLine_def trim_eval HasPrefix_def)

lemma loadLine_empty: "loadLine c [] = c"
  by (simp add: loadLine_def trim_eval)

lemma dropCR_key_value:
  assumes "TrimSpace v = v" "last k \<noteq> CHR 0x0D" "k \<noteq> []"
  shows "dropCR (k @ v) = k @ v"
proof (cases "v = []")
  case True
  with assms show ?thesis by (simp add: dropCR_def)
next
  case False
  with TrimSpace_no_CR [OF assms(1)] show ?thesis by (simp add: dropCR_def)
qed

lemma scan_saveContent:
  assumes v: "TrimSpace (Version c) = Version c" "CHR 0x0A \<notin> set (Version c)"
      "length (Version c) + 8 < MaxScanTokenSize"
    and p: "TrimSpace (InstallPath c) = InstallPath c" "CHR 0x0A \<notin> set (InstallPath c)"
      "length (InstallPath c) + 13 < MaxScanTokenSize"
  shows "scanLines [] (saveContent c) =
     ([''# tfdown configuration file'', ''# Last updated: '' @ getCurrentDate, [],
       ''version='' @ Version c, ''install='' @ fmtBool (Install c),
       ''install_path='' @ InstallPath c], False)"
proof -
  have 6: "scanLines [] ((''install_path='' @ InstallPath c) @ CHR 0x0A # [])
      = ([''install_path='' @ InstallPath c], False)"
    using p dropCR_key_value [OF p(1), of "''install_path=''"]
      scanLines_line [of "''install_path='' @ InstallPath c" "[]" "[]"]
    by simp
  have 5: "scanLines [] ((''install='' @ fmtBool (Install c)) @ CHR 0x0A # r)
      = ((''install='' @ fmtBool (Install c)) # fst (scanLines [] r), snd (scanLines [] r))" for r
    by (subst scanLines_line) (simp_all add: fmtBool_def MaxScanTokenSize_def dropCR_def)
  have 4: "scanLines [] ((''version='' @ Version c) @ CHR 0x0A # r)
      = ((''version='' @ Version c) # fst (scanLines [] r), snd (scanLines [] r))" for r
    using v dropCR_key_value [OF v(1), of "''version=''"]
      scanLines_line [of "''version='' @ Version c" "[]" r]
    by simp
  have 3: "scanLines [] ([] @ CHR 0x0A # r) = ([] # fst (scanLines [] r), snd (scanLines [] r))" for r
    by (subst scanLines_line) (simp_all add: MaxScanTokenSize_def dropCR_def)
  have 2: "scanLines [] ((''# Last updated: '' @ getCurrentDate) @ CHR 0x0A # r)
      = ((''# Last updated: '' @ getCurrentDate) # fst (scanLines [] r), snd (scanLines [] r))" for r
    by (subst scanLines_line) (simp_all add: getCurrentDate_def MaxScanTokenSize_def dropCR_def)
  have 1: "scanLines [] (''# tfdown configuration file'' @ CHR 0x0A # r)
      = (''# tfdown configuration file'' # fst (scanLines [] r), snd (scanLines [] r))" for r
    by (subst scanLines_line) (simp_all add: MaxScanTokenSize_def dropCR_def)
  have "saveContent c = ''# tfdown configuration file'' @ CHR 0x0A #
      ((''# Last updated: '' @ getCurrentDate) @ CHR 0x0A #
      ([] @ CHR 0x0A #
      ((''version='' @ Version c) @ CHR 0x0A #
      ((''install='' @ fmtBool (Install c)) @ CHR 0x0A #
      ((''install_path='' @ InstallPath c) @ CHR 0x0A # [])))))"
    by (simp add: saveContent_def)
  then show ?thesis
    by (simp only: 1 2 3 4 5 6 fst_conv snd_conv)
qed

lemma fs_Stat_after_write:
  assumes "fs_OpenFile f p = Inr f1"
  shows "fs_Stat (f1(p \<mapsto> File_node d)) p = Inr (File_node d)"
proof -
  from assms have ne: "p \<noteq> []" and par: "fs_Stat f (butlast p) = Inr Dir_node"
    by (auto simp: fs_OpenFile_def split: if_splits sum.splits node.splits option.splits)
  from par have nf: "\<not> list_ex (isFile f) (butlast (prefixes (butlast p)))"
    and d: "lookup f (butlast p) = Some Dir_node"
    by (auto simp: fs_Stat_def split: if_splits option.splits)
  from d have nb: "\<not> isFile f (butlast p)" by (simp add: isFile_def)
  have pp: "butlast (prefixes p) = prefixes (butlast p)"
    using ne by (cases p rule: rev_cases) simp_all
  have "prefixes (butlast p) = butlast (prefixes (butlast p)) @ [butlast p]"
    by (metis append_butlast_last_id last_prefixes prefixes_not_Nil)
  then have "set (prefixes (butlast p)) = set (butlast (prefixes (butlast p))) \<union> {butlast p}"
    by (metis Un_insert_right list.simps(15) set_append sup_bot.right_neutral list.set(1))
  with nf nb have "\<not> list_ex (isFile f) (prefixes (butlast p))"
    by (auto simp: list_ex_iff)
  moreover have "isFile (f1(p \<mapsto> File_node d)) q = isFile f q" if "q \<in> set (prefixes (butlast p))" for q
  proof -
    from that have "prefix q (butlast p)" by (simp add: in_set_prefixes)
    then have "length q \<le> length (butlast p)" by (rule prefix_length_le)
    moreover have "length (butlast p) < length p" using ne by simp
    ultimately have "length q < length p" by simp
    then have "q \<noteq> p" by auto
    moreover from assms have "f1 q = f q" if "q \<noteq> p" using that
      by (auto simp: fs_OpenFile_def split: if_splits sum.splits node.splits option.splits)
    ultimately show ?thesis by (simp add: isFile_def lookup_def)
  qed
  ultimately have "\<not> list_ex (isFile (f1(p \<mapsto> File_node d))) (butlast (prefixes p))"
    unfolding pp by (simp add: list_ex_iff)
  then show ?thesis using ne by (simp add: fs_Stat_def lookup_def)
qed

lemma Stat_after_Save:
  assumes "snd (Save wd fs0 c) = None"
  shows "Stat wd (fst (Save wd fs0 c)) (configPath c) = Inr (File_node (saveContent c))"
proof -
  from assms obtain f1 where o: "OpenFile wd fs0 (configPath c) = Inr f1"
    and s: "fst (Save wd fs0 c) = writeBytes wd f1 (configPath c) (saveContent c)"
    by (auto simp: Save_def WriteFile_def split: sum.splits)
  from o have ne: "configPath c \<noteq> []" and o': "fs_OpenFile fs0 (resolve wd (configPath c)) = Inr f1"
    by (auto simp: OpenFile_def split: if_splits)
  show ?thesis
    unfolding s using ne fs_Stat_after_write [OF o'] by (simp add: Stat_def writeBytes_def)
qed

text \<open>
  Claim C6, as amended. When \<open>Save\<close> succeeds and the version and the install path contain no
  line feed, have no white space at either end (\<open>TrimSpace\<close> leaves them as they are) and
  are short enough for their lines to fit the buffer of the scanner, \<open>Load\<close> from the saved
  file into an object with the same path gives the saved object and no error, for either
  value of the install flag and also for empty strings.
\<close>

theorem Save_then_Load:
  assumes "snd (Save wd fs0 c) = None"
    and "TrimSpace (Version c) = Version c" "CHR 0x0A \<notin> set (Version c)"
      "length (Version c) + 8 < MaxScanTokenSize"
    and "TrimSpace (InstallPath c) = InstallPath c" "CHR 0x0A \<notin> set (InstallPath c)"
      "length (InstallPath c) + 13 < MaxScanTokenSize"
    and "configPath c0 = configPath c"
  shows "Load wd (fst (Save wd fs0 c)) c0 = (c, None)"
proof -
  have "Stat wd (fst (Save wd fs0 c)) (configPath c0) = Inr (File_node (saveContent c))"
    using Stat_after_Save [OF assms(1)] assms(8) by simp
  then have "Load wd (fst (Save wd fs0 c)) c0
      = (foldl loadLine c0 (fst (scanLines [] (saveContent c))),
         if snd (scanLines [] (saveContent c)) then Some ErrReadConfig else None)"
    by (rule Load_file)
  also have "\<dots> = (c0\<lparr>Version := Version c, Install := Install c, InstallPath := InstallPath c\<rparr>, None)"
    unfolding scan_saveContent [OF assms(2-7)]
    by (simp add: loadLine_header1 loadLine_header2 loadLine_empty loadLine_version [OF assms(2)]
        loadLine_install loadLine_install_path [OF assms(5)] del: append.simps)
  also have "c0\<lparr>Version := Version c, Install := Install c, InstallPath := InstallPath c\<rparr> = c"
    using assms(8) by simp
  finally show ?thesis .
qed

lemma Save_fs_dirs:
  "configPath c = ''/home/u/.tfdown.conf'' \<Longrightarrow> snd (Save [] fs_dirs c) = None"
  by (simp add: Save_def fs_dirs_def path_eval fs_eval)

lemma scan_saveContent_long:
  assumes "CHR 0x0A \<notin> set (Version c)" "MaxScanTokenSize \<le> length (Version c) + 8"
  shows "scanLines [] (saveContent c) =
     ([''# tfdown configuration file'', ''# Last updated: '' @ getCurrentDate, []], True)"
proof -
  have 4: "scanLines [] ((''version='' @ Version c) @ CHR 0x0A # r) = ([], True)" for r
    using assms scanLines_too_long [of "''version='' @ Version c" "[]" r] by simp
  have 3: "scanLines [] ([] @ CHR 0x0A # r) = ([] # fst (scanLines [] r), snd (scanLines [] r))" for r
    by (subst scanLines_line) (simp_all add: MaxScanTokenSize_def dropCR_def)
  have 2: "scanLines [] ((''# Last updated: '' @ getCurrentDate) @ CHR 0x0A # r)
      = ((''# Last updated: '' @ getCurrentDate) # fst (scanLines [] r), snd (scanLines [] r))" for r
    by (subst scanLines_line) (simp_all add: getCurrentDate_def MaxScanTokenSize_def dropCR_def)
  have 1: "scanLines [] (''# tfdown configuration file'' @ CHR 0x0A # r)
      = (''# tfdown configuration file'' # fst (scanLines [] r), snd (scanLines [] r))" for r
    by (subst scanLines_line) (simp_all add: MaxScanTokenSize_def dropCR_def)
  have "saveContent c = ''# tfdown configuration file'' @ CHR 0x0A #
      ((''# Last updated: '' @ getCurrentDate) @ CHR 0x0A #
      ([] @ CHR 0x0A #
      ((''version='' @ Version c) @ CHR 0x0A #
      ((''install='' @ fmtBool (Install c)) @ CHR 0x0A #
      ((''install_path='' @ InstallPath c) @ CHR 0x0A # [])))))"
    by (simp add: saveContent_def)
  then show ?thesis
    by (simp only: 1 2 3 4 fst_conv snd_conv)
qed

lemma Load_after_long_Save:
  assumes "snd (Save wd fs0 c) = None" "CHR 0x0A \<notin> set (Version c)"
    "MaxScanTokenSize \<le> length (Version c) + 8" "configPath c0 = configPath c"
  shows "Load wd (fst (Save wd fs0 c)) c0 = (c0, Some ErrReadConfig)"
proof -
  have "Stat wd (fst (Save wd fs0 c)) (configPath c0) = Inr (File_node (saveContent c))"
    using Stat_after_Save [OF assms(1)] assms(4) by simp
  then have "Load wd (fst (Save wd fs0 c)) c0
      = (foldl loadLine c0 (fst (scanLines [] (saveContent c))),
         if snd (scanLines [] (saveContent c)) then Some ErrReadConfig else None)"
    by (rule Load_file)
  then show ?thesis
    unfolding scan_saveContent_long [OF assms(2,3)]
    by (simp add: loadLine_header1 loadLine_header2 loadLine_empty del: append.simps)
qed

lemma loadLine_version_space: "loadLine c (''version= 1.7.0'') = c\<lparr>Version := ''1.7.0''\<rparr>"
  by (simp add: loadLine_def trim_eval HasPrefix_def)

text \<open>
  Claim C6 as stated fails for printable strings: a version that starts with a space comes
  back without it, and a version of 65536 letters makes its line too long for the scanner,
  so \<open>Load\<close> returns an error and none of the three fields.
\<close>

theorem Save_then_Load_counterexample:
  "snd (Save [] fs_dirs cfg_space) = None
   \<and> Load [] (fst (Save [] fs_dirs cfg_space)) (NewConfig ''/home/u'') = (cfg_170, None)
   \<and> cfg_170 \<noteq> cfg_space
   \<and> snd (Save [] fs_dirs cfg_long) = None
   \<and> Load [] (fst (Save [] fs_dirs cfg_long)) (NewConfig ''/home/u'')
       = (NewConfig ''/home/u'', Some ErrReadConfig)"
proof -
  have p: "configPath (NewConfig ''/home/u'') = ''/home/u/.tfdown.conf''"
    by (simp add: NewConfig_def path_eval)
  have s1: "snd (Save [] fs_dirs cfg_space) = None"
    by (rule Save_fs_dirs) (simp add: cfg_space_def cfg_170_def)
  have s2: "snd (Save [] fs_dirs cfg_long) = None"
    by (rule Save_fs_dirs) (simp add: cfg_long_def cfg_170_def)
  have "Stat [] (fst (Save [] fs_dirs cfg_space)) (configPath (NewConfig ''/home/u''))
      = Inr (File_node (saveContent cfg_space))"
    using Stat_after_Save [OF s1] by (simp add: p cfg_space_def cfg_170_def)
  then have "Load [] (fst (Save [] fs_dirs cfg_space)) (NewConfig ''/home/u'')
      = (foldl loadLine (NewConfig ''/home/u'') (fst (scanLines [] (saveContent cfg_space))),
         if snd (scanLines [] (saveContent cfg_space)) then Some ErrReadConfig else None)"
    by (rule Load_file)
  moreover have "scanLines [] (saveContent cfg_space) =
     ([''# tfdown configuration file'', ''# Last updated: 2026-02-05'', [],
       ''version= 1.7.0'', ''install=true'', ''install_path=/usr/local/bin''], False)"
    by (simp add: saveContent_def cfg_space_def cfg_170_def getCurrentDate_def fmtBool_def
        MaxScanTokenSize_def dropCR_def)
  ultimately have l1: "Load [] (fst (Save [] fs_dirs cfg_space)) (NewConfig ''/home/u'') = (cfg_170, None)"
    using loadLine_header1 loadLine_header2 loadLine_empty loadLine_version_space
      loadLine_install [of _ True] loadLine_install_path [of "''/usr/local/bin''"]
    by (simp add: getCurrentDate_def fmtBool_def trim_eval cfg_170_def NewConfig_def path_eval)
  have n: "cfg_170 \<noteq> cfg_space" by (simp add: cfg_space_def cfg_170_def)
  have l2: "Load [] (fst (Save [] fs_dirs cfg_long)) (NewConfig ''/home/u'')
       = (NewConfig ''/home/u'', Some ErrReadConfig)"
    by (rule Load_after_long_Save [OF s2])
       (simp_all add: cfg_long_def cfg_170_def MaxScanTokenSize_def p)
  from s1 l1 n s2 l2 show ?thesis by blast
qed

theorem Save_then_Load_witness:
  "snd (Save [] fs_dirs cfg_170) = None
   \<and> TrimSpace (Version cfg_170) = Version cfg_170
   \<and> CHR 0x0A \<notin> set (Version cfg_170)
   \<and> length (Version cfg_170) + 8 < MaxScanTokenSize
   \<and> TrimSpace (InstallPath cfg_170) = InstallPath cfg_170
   \<and> CHR 0x0A \<notin> set (InstallPath cfg_170)
   \<and> length (InstallPath cfg_170) + 13 < MaxScanTokenSize
   \<and> configPath (NewConfig ''/home/u'') = configPath cfg_170
   \<and> Load [] (fst (Save [] fs_dirs cfg_170)) (NewConfig ''/home/u'') = (cfg_170, None)"
proof -
  have h1: "snd (Save [] fs_dirs cfg_170) = None"
    by (rule Save_fs_dirs) (simp add: cfg_170_def)
  have h2: "TrimSpace (Version cfg_170) = Version cfg_170"
    and h5: "TrimSpace (InstallPath cfg_170) = InstallPath cfg_170"
    by (simp_all add: cfg_170_def trim_eval)
  have h3: "CHR 0x0A \<notin> set (Version cfg_170)" and h6: "CHR 0x0A \<notin> set (InstallPath cfg_170)"
    and h4: "length (Version cfg_170) + 8 < MaxScanTokenSize"
    and h7: "length (InstallPath cfg_170) + 13 < MaxScanTokenSize"
    by (simp_all add: cfg_170_def MaxScanTokenSize_def)
  have h8: "configPath (NewConfig ''/home/u'') = configPath cfg_170"
    by (simp add: NewConfig_def path_eval cfg_170_def)
  from Save_then_Load [OF h1 h2 h3 h4 h5 h6 h7 h8] h1 h2 h3 h4 h5 h6 h7 h8
  show ?thesis by blast
qed

subsection \<open>The unattended run with installation enabled\<close>

lemma GetVersion_auto_ok:
  "GetVersion env_ok (downloaderOf env_ok []) w = (Inr ''1.7.0'', w\<lparr>reqs := reqs w @ [terraformCheckURL]\<rparr>)"
  by (simp add: GetVersion_def downloaderOf_Nil NewDownloader_def GetLatestVersion_def Get_def
      env_ok_def StatusOK_def)

lemma afterLoad_install: "afterLoad env_ok (world_of fs_install) = world_of fs_install"
  by (simp add: afterLoad_def env_ok_def world_of_def Load_fs_install)

lemma Download_auto_ok:
  "Download env_ok (downloaderOf env_ok []) \<lparr>fs = fs_install, out = [], reqs = [terraformCheckURL]\<rparr>
    = (Inr ''terraform_1.7.0_linux_amd64.zip'',
       \<lparr>fs = fs_install([''home'', ''u'', ''terraform_1.7.0_linux_amd64.zip''] \<mapsto> File_node ''PK''),
        out = [PrintDownloading ''1.7.0'' ''linux'' ''amd64'',
               PrintURL (terraformDownloadURL ''1.7.0'' ''linux'' ''amd64''),
               PrintProgress, PrintDownloaded ''terraform_1.7.0_linux_amd64.zip''],
        reqs = [terraformCheckURL, terraformCheckURL,
                terraformDownloadURL ''1.7.0'' ''linux'' ''amd64'']\<rparr>)"
  by (simp add: Download_def downloaderOf_Nil NewDownloader_def GetLatestVersion_def Get_def
      fetchArchive_def TrimPrefix_def zipFileName_def
      env_ok_def StatusOK_def fs_install_def fs_dirs_def run_eval)


lemma main_auto_install:
  "main env_ok [] (world_of fs_install) =
     downloadAndInstall env_ok (loaded env_ok (world_of fs_install)) (downloaderOf env_ok [])
       ''1.7.0'' True ''/usr/local/bin'' False
       \<lparr>fs = fs_install, out = [], reqs = [terraformCheckURL]\<rparr>"
  using main_auto [of env_ok "world_of fs_install" "''1.7.0''"]
  by (simp add: afterLoad_install GetVersion_auto_ok loaded_install) (simp add: world_of_def)

lemma Update_install:
  "Update [''home'', ''u''] (fs_install(z \<mapsto> File_node ''PK''))
      \<lparr>Version = ''1.7.0'', Install = True, InstallPath = ''/usr/local/bin'',
       configPath = ''/home/u/.tfdown.conf''\<rparr> ''1.7.0'' True ''/usr/local/bin''
    = (\<lparr>Version = ''1.7.0'', Install = True, InstallPath = ''/usr/local/bin'',
       configPath = ''/home/u/.tfdown.conf''\<rparr>,
       (fs_install(z \<mapsto> File_node ''PK''))
         ([''home'', ''u'', ''.tfdown.conf''] \<mapsto> File_node conf_170_install), None)"
  if "z = [''home'', ''u'', ''terraform_1.7.0_linux_amd64.zip'']"
  unfolding that
  by (simp add: Update_def Save_def saveContent_def getCurrentDate_def fmtBool_def
      conf_170_install_def fs_install_def fs_dirs_def run_eval)

text \<open>
  Claim C3 at a state with installation enabled: the configuration holds version 1.7.0,
  \<open>install=true\<close> and an install path, and the latest version is 1.7.0. The unattended run
  takes the install settings of the configuration first, so the test for "already up to
  date" fails on the install flag: the run requests the archive, extracts and installs it,
  and never prints that it is up to date.
\<close>

theorem unattended_run_reinstalls:
  "Version (loaded env_ok (world_of fs_install)) = ''1.7.0''
   \<and> fst (GetVersion env_ok (downloaderOf env_ok []) (afterLoad env_ok (world_of fs_install)))
       = Inr ''1.7.0''
   \<and> fst (main env_ok [] (world_of fs_install)) = 0
   \<and> reqs (snd (main env_ok [] (world_of fs_install)))
       = [terraformCheckURL, terraformCheckURL, terraformDownloadURL ''1.7.0'' ''linux'' ''amd64'']
   \<and> out (snd (main env_ok [] (world_of fs_install)))
       = [PrintDownloading ''1.7.0'' ''linux'' ''amd64'',
          PrintURL (terraformDownloadURL ''1.7.0'' ''linux'' ''amd64''),
          PrintProgress, PrintDownloaded ''terraform_1.7.0_linux_amd64.zip'',
          PrintExtracting ''terraform_1.7.0_linux_amd64.zip'',
          PrintInstalling ''/usr/local/bin/terraform'',
          PrintInstalled ''1.7.0'' ''/usr/local/bin'']
   \<and> fs (snd (main env_ok [] (world_of fs_install))) [''usr'', ''local'', ''bin'', ''terraform'']
       = Some (File_node ''ELF'')"
  unfolding main_auto_install
  apply (simp add: loaded_install GetVersion_auto_ok afterLoad_install)
  apply (simp add: downloadAndInstall_def Download_auto_ok)
  apply (simp add: env_ok_def Update_install [OF refl])
  apply (simp add: installTerraform_unfold installFrom_def copyFile_def Chmod_def Remove_def RemoveAll_def
       zipFileName_def terraform_entry_def
       fs_install_def fs_dirs_def run_eval)
  done

subsection \<open>Extraction of a whole archive\<close>

declare splitOn_not_Nil [simp]








































































end
